theory Spec2Isabelle
  imports Main
begin

section \<open>The default judge of hydrojudge: data model\<close>

text \<open>
  The development embeds \<^verbatim>\<open>packages/hydrojudge/src/judge/default.ts\<close>: the Case Runner
  \<^verbatim>\<open>judgeCase\<close> and the strategy \<^verbatim>\<open>judge\<close>. JavaScript numbers that hold
  milliseconds, bytes, scores, exit codes and the rerun budget are integers (\<open>int\<close>); an
  optional value is an \<open>option\<close>; an object used as a dictionary is an association list in
  enumeration order.

  Modelled from the spec: the enumeration \<^verbatim>\<open>STATUS\<close> of
  \<^verbatim>\<open>@hydrooj/utils/lib/status\<close> is not part of the sources at hand. The five verdicts the
  Case Runner names are constructors; every other verdict (the "checker-reported variants",
  system errors and so on) is \<open>STATUS_OTHER n\<close>.
\<close>

datatype STATUS =
    STATUS_ACCEPTED
  | STATUS_WRONG_ANSWER
  | STATUS_TIME_LIMIT_EXCEEDED
  | STATUS_MEMORY_LIMIT_EXCEEDED
  | STATUS_RUNTIME_ERROR
  | STATUS_OTHER nat

text \<open>
  A rejected promise or a thrown exception is a value: \<open>TypeError\<close> is what JavaScript
  raises on calling \<^verbatim>\<open>undefined\<close>, \<open>Rejected\<close> is any failure reported by an external
  collaborator (sandbox, checker, deletion, analysis, compiler).
\<close>

datatype error = TypeError string | Rejected string

type_synonym fileId = string

text \<open>\<^verbatim>\<open>{ src }\<close>, \<^verbatim>\<open>{ fileId }\<close> and \<^verbatim>\<open>{ content }\<close> file references.\<close>

datatype file_ref = Src string | FileId fileId | Content string

text \<open>
  The variable \<^verbatim>\<open>message\<close> is declared \<^verbatim>\<open>any\<close>: it holds a string, the object
  \<^verbatim>\<open>{ message, params }\<close>, or \<^verbatim>\<open>undefined\<close> when the signal table has no entry.
\<close>

datatype message = MsgString string | MsgTemplate string "int list" | MsgUndefined

record NormalizedCase =
  c_id :: int
  c_input :: string
  c_output :: string
  c_time :: int
  c_memory :: int
  c_score :: int

record Execute =
  ex_execute :: string
  ex_copyIn :: "(string \<times> file_ref) list option"

record Config =
  cfg_filename :: "string option"
  cfg_checker_type :: string
  cfg_checker :: string
  cfg_detail :: "bool option"

text \<open>
  The judge context. \<open>ctx_rerun\<close> and \<open>ctx_analysis\<close> are the two fields the Case Runner
  writes; \<open>ctx_execute\<close> and \<open>ctx_checker\<close> are written by the compile stage;
  \<open>ctx_rejudged\<close> is \<^verbatim>\<open>ctx.request.rejudged\<close>.
\<close>

record Context =
  ctx_lang :: string
  ctx_code :: string
  ctx_input :: string
  ctx_execute :: Execute
  ctx_checker :: Execute
  ctx_config :: Config
  ctx_env :: "(string \<times> string) list"
  ctx_rerun :: int
  ctx_analysis :: bool
  ctx_rejudged :: bool

record ContextSubTask =
  subtask_id :: int

record LangConfig =
  address_space_limit :: "bool option"
  process_limit :: "int option"

text \<open>The sandbox response and the parameters of a sandbox run.\<close>

record RunResult =
  res_status :: STATUS
  res_code :: "int option"
  res_signalled :: bool
  res_time :: int
  res_memory :: int
  res_fileIds :: "(string \<times> fileId) list"

record RunParams =
  rq_stdin :: file_ref
  rq_copyIn :: "(string \<times> file_ref) list option"
  rq_filename :: "string option"
  rq_time :: int
  rq_memory :: int
  rq_cacheStdoutAndStderr :: bool
  rq_addressSpaceLimit :: "bool option"
  rq_processLimit :: "int option"

text \<open>The argument of a checker and the triple it returns.\<close>

record CheckConfig =
  ck_execute :: string
  ck_copyIn :: "(string \<times> file_ref) list"
  ck_input :: file_ref
  ck_output :: file_ref
  ck_user_stdout :: file_ref
  ck_user_stderr :: file_ref
  ck_score :: int
  ck_detail :: bool
  ck_env :: "(string \<times> string) list"

record CheckResult =
  cr_status :: STATUS
  cr_score :: int
  cr_message :: message

record CaseResult =
  r_id :: int
  r_subtaskId :: int
  r_status :: STATUS
  r_score :: int
  r_time :: int
  r_memory :: int
  r_message :: message

section \<open>External collaborators\<close>

text \<open>
  Every call the judge makes to a collaborator is logged as an event, in call order. The
  runner callback and the analysis capability receive the context object, so their events
  carry the context as it is at the moment of the call.
\<close>

datatype event =
    EvRunQueued string RunParams
  | EvChecker string CheckConfig
  | EvDel fileId
  | EvRunner Context ContextSubTask
  | EvRunAnalysis Context Execute file_ref
  | EvCompile string string
  | EvCompileLocalFile string string string

text \<open>
  The collaborators themselves are parameters. Each one answers from the history of calls
  made before it and from its arguments, so that two attempts of the same case can get
  different answers; each may fail. \<open>checkers\<close> is the registry (\<open>None\<close> for a key it
  does not have) and \<open>signals\<close> the signal table (\<open>None\<close> where it has no entry).
  None of them writes \<open>ctx_rerun\<close> or \<open>ctx_analysis\<close>.
\<close>

record externals =
  getLang :: "string \<Rightarrow> LangConfig"
  runQueued :: "event list \<Rightarrow> string \<Rightarrow> RunParams \<Rightarrow> error + RunResult"
  checkers :: "string \<Rightarrow> (event list \<Rightarrow> CheckConfig \<Rightarrow> error + CheckResult) option"
  del :: "event list \<Rightarrow> fileId \<Rightarrow> error + unit"
  signals :: "int \<Rightarrow> string option"
  runAnalysis :: "event list \<Rightarrow> Context \<Rightarrow> Execute \<Rightarrow> file_ref \<Rightarrow> error + unit"
  compile :: "event list \<Rightarrow> string \<Rightarrow> string \<Rightarrow> error + Execute"
  compileLocalFile :: "event list \<Rightarrow> string \<Rightarrow> string \<Rightarrow> string \<Rightarrow> error + Execute"

text \<open>
  What a call of the Case Runner (or of the runner callback) yields: the rejection or the
  returned record, the context after the call, and the events the call added.
\<close>

type_synonym outcome = "(error + CaseResult) \<times> Context \<times> event list"

type_synonym runner = "Context \<Rightarrow> ContextSubTask \<Rightarrow> event list \<Rightarrow> outcome"

section \<open>JavaScript helpers\<close>

text \<open>
  \<^verbatim>\<open>Number.prototype.toString\<close> on an integer: decimal digits, a minus sign if negative.
  This is what JavaScript prints for an integer of magnitude below \<open>10^21\<close>; from there on
  it prints exponent notation, which the model does not follow. The only use is the case
  id of line 46.
\<close>

fun digits :: "nat \<Rightarrow> string" where
  "digits n =
     (if n < 10 then [''0123456789'' ! n]
      else digits (n div 10) @ [''0123456789'' ! (n mod 10)])"

declare digits.simps [simp del]

definition toString :: "int \<Rightarrow> string" where
  "toString i = (if i < 0 then CHR ''-'' # digits (nat (- i)) else digits (nat i))"

text \<open>\<^verbatim>\<open>{ ...obj, k: v }\<close>: an existing key keeps its place, a new key goes last.\<close>

fun spread_set :: "(string \<times> 'v) list \<Rightarrow> string \<Rightarrow> 'v \<Rightarrow> (string \<times> 'v) list" where
  "spread_set [] k v = [(k, v)]"
| "spread_set ((k', v') # kvs) k v =
     (if k' = k then (k, v) # kvs else (k', v') # spread_set kvs k v)"

text \<open>\<^verbatim>\<open>Object.values\<close>.\<close>

definition Object_values :: "(string \<times> 'v) list \<Rightarrow> 'v list" where
  "Object_values obj = map snd obj"

text \<open>
  \<^verbatim>\<open>fileIds.stdout ? { fileId: fileIds.stdout } : { content: '' }\<close>: a missing key and
  the empty string are both falsy.
\<close>

definition user_file :: "(string \<times> fileId) list \<Rightarrow> string \<Rightarrow> file_ref" where
  "user_file fileIds k =
     (case map_of fileIds k of
        None \<Rightarrow> Content ''''
      | Some f \<Rightarrow> if f = '''' then Content '''' else FileId f)"

text \<open>\<^verbatim>\<open>Promise.allSettled\<close> never rejects: it keeps every outcome.\<close>

datatype 'a settled = Fulfilled 'a | Failed error

definition allSettled :: "(error + 'a) list \<Rightarrow> 'a settled list" where
  "allSettled ps = map (\<lambda>p. case p of Inl e \<Rightarrow> Failed e | Inr v \<Rightarrow> Fulfilled v) ps"

section \<open>The Case Runner\<close>

text \<open>Lines 11-24 of \<^verbatim>\<open>judgeCase\<close>: the parameters handed to \<^verbatim>\<open>runQueued\<close>.\<close>

definition run_params :: "externals \<Rightarrow> NormalizedCase \<Rightarrow> Context \<Rightarrow> RunParams" where
  "run_params ext c ctx =
     (let lc = getLang ext (ctx_lang ctx) in
      \<lparr> rq_stdin = Src (c_input c),
        rq_copyIn = ex_copyIn (ctx_execute ctx),
        rq_filename = cfg_filename (ctx_config ctx),
        rq_time = c_time c,
        rq_memory = c_memory c,
        rq_cacheStdoutAndStderr = True,
        rq_addressSpaceLimit = address_space_limit lc,
        rq_processLimit = process_limit lc \<rparr>)"

text \<open>Lines 37-47: the argument of the checker.\<close>

definition check_config :: "NormalizedCase \<Rightarrow> Context \<Rightarrow> RunResult \<Rightarrow> CheckConfig" where
  "check_config c ctx res =
     \<lparr> ck_execute = ex_execute (ctx_checker ctx),
       ck_copyIn = (case ex_copyIn (ctx_checker ctx) of None \<Rightarrow> [] | Some m \<Rightarrow> m),
       ck_input = Src (c_input c),
       ck_output = Src (c_output c),
       ck_user_stdout = user_file (res_fileIds res) ''stdout'',
       ck_user_stderr = user_file (res_fileIds res) ''stderr'',
       ck_score = c_score c,
       ck_detail = (case cfg_detail (ctx_config ctx) of None \<Rightarrow> True | Some d \<Rightarrow> d),
       ck_env = spread_set (ctx_env ctx) ''HYDRO_TESTCASE'' (toString (c_id c)) \<rparr>"

text \<open>
  Lines 28-52: classification of the raw result. \<open>h\<close> is the history of calls so far; the
  function returns the events it adds (the checker call, if made). \<^verbatim>\<open>score\<close> starts at
  \<open>0\<close> and \<^verbatim>\<open>message\<close> at the empty string. The exit code is tested for truthiness:
  \<^verbatim>\<open>undefined\<close> and \<open>0\<close> are falsy.
\<close>

definition classify ::
  "externals \<Rightarrow> NormalizedCase \<Rightarrow> Context \<Rightarrow> RunResult \<Rightarrow> event list
     \<Rightarrow> (error + STATUS \<times> int \<times> message) \<times> event list" where
  "classify ext c ctx res h =
     (if res_status res = STATUS_ACCEPTED then
        if res_time res > c_time c then
          (Inr (STATUS_TIME_LIMIT_EXCEEDED, 0, MsgString ''''), [])
        else if res_memory res > c_memory c * 1024 then
          (Inr (STATUS_MEMORY_LIMIT_EXCEEDED, 0, MsgString ''''), [])
        else
          (case checkers ext (cfg_checker_type (ctx_config ctx)) of
             None \<Rightarrow> (Inl (TypeError ''checkers[ctx.config.checker_type] is not a function''), [])
           | Some chk \<Rightarrow>
               let cfg = check_config c ctx res;
                   ev = EvChecker (cfg_checker_type (ctx_config ctx)) cfg
               in (case chk h cfg of
                     Inl e \<Rightarrow> (Inl e, [ev])
                   | Inr v \<Rightarrow> (Inr (cr_status v, cr_score v, cr_message v), [ev])))
      else
        (case res_code res of
           None \<Rightarrow> (Inr (res_status res, 0, MsgString ''''), [])
         | Some code \<Rightarrow>
             if res_status res = STATUS_RUNTIME_ERROR \<and> code \<noteq> 0 then
               if code < 32 \<and> res_signalled res then
                 (Inr (STATUS_RUNTIME_ERROR, 0,
                       (case signals ext code of None \<Rightarrow> MsgUndefined | Some s \<Rightarrow> MsgString s)), [])
               else
                 (Inr (STATUS_RUNTIME_ERROR, 0, MsgTemplate ''Your program returned {0}.'' [code]), [])
             else (Inr (res_status res, 0, MsgString ''''), [])))"

text \<open>
  Line 53: \<^verbatim>\<open>del\<close> is called on every value of \<^verbatim>\<open>res.fileIds\<close>, in enumeration order;
  \<^verbatim>\<open>Promise.allSettled\<close> collects the outcomes and the Case Runner drops them.
\<close>

fun del_each :: "externals \<Rightarrow> fileId list \<Rightarrow> event list \<Rightarrow> (error + unit) list \<times> event list" where
  "del_each ext [] h = ([], [])"
| "del_each ext (f # fs) h =
     (let p = del ext h f;
          (ps, evs) = del_each ext fs (h @ [EvDel f])
      in (p # ps, EvDel f # evs))"

definition cleanup :: "externals \<Rightarrow> RunResult \<Rightarrow> event list \<Rightarrow> event list" where
  "cleanup ext res h =
     (let (ps, evs) = del_each ext (Object_values (res_fileIds res)) h;
          settled = allSettled ps
      in evs)"

text \<open>
  Lines 11-53 together are one run of the case: the sandbox call, the classification and the
  cleanup. A rejection of the sandbox or of the checker leaves \<^verbatim>\<open>judgeCase\<close> at once, before
  line 53. The run yields the raw result and the status, score and message that lines 54-70
  go on with.
\<close>

definition attempt ::
  "externals \<Rightarrow> NormalizedCase \<Rightarrow> Context \<Rightarrow> event list
     \<Rightarrow> (error + RunResult \<times> STATUS \<times> int \<times> message) \<times> event list" where
  "attempt ext c ctx h =
     (let cmd = ex_execute (ctx_execute ctx);
          params = run_params ext c ctx;
          ev1 = [EvRunQueued cmd params]
      in case runQueued ext h cmd params of
           Inl e \<Rightarrow> (Inl e, ev1)
         | Inr res \<Rightarrow>
             (case classify ext c ctx res (h @ ev1) of
                (Inl e, ev2) \<Rightarrow> (Inl e, ev1 @ ev2)
              | (Inr (status, score, message), ev2) \<Rightarrow>
                  (Inr (res, status, score, message),
                   ev1 @ ev2 @ cleanup ext res (h @ ev1 @ ev2))))"

text \<open>Line 54: the condition of the retry. \<^verbatim>\<open>ctx.rerun\<close> is tested for truthiness.\<close>

definition retry_fires :: "runner option \<Rightarrow> Context \<Rightarrow> NormalizedCase \<Rightarrow> STATUS \<Rightarrow> bool" where
  "retry_fires runner ctx c status \<longleftrightarrow>
     runner \<noteq> None \<and> ctx_rerun ctx \<noteq> 0 \<and> c_time c \<le> 5000 \<and> status = STATUS_TIME_LIMIT_EXCEEDED"

text \<open>Lines 55-56: the budget is decremented, then the runner is called with two arguments.\<close>

definition retry :: "runner \<Rightarrow> Context \<Rightarrow> ContextSubTask \<Rightarrow> event list \<Rightarrow> outcome" where
  "retry rn ctx ctxSubtask h =
     (let ctx' = ctx\<lparr>ctx_rerun := ctx_rerun ctx - 1\<rparr>;
          ev = EvRunner ctx' ctxSubtask
      in case rn ctx' ctxSubtask (h @ [ev]) of
           (r, ctx'', evs) \<Rightarrow> (r, ctx'', ev # evs))"

text \<open>Line 58: the condition of the failure analysis.\<close>

definition analysis_due :: "Context \<Rightarrow> STATUS \<Rightarrow> bool" where
  "analysis_due ctx status \<longleftrightarrow>
     \<not> ctx_rejudged ctx \<and> \<not> ctx_analysis ctx \<and>
     (status = STATUS_WRONG_ANSWER \<or> status = STATUS_RUNTIME_ERROR)"

text \<open>
  Lines 58-70: the analysis trigger and the returned record \<open>r\<close>. The flag is written
  before the capability is called, so it stays set when the capability fails.
\<close>

definition finish :: "externals \<Rightarrow> Context \<Rightarrow> CaseResult \<Rightarrow> event list \<Rightarrow> outcome" where
  "finish ext ctx r h =
     (if analysis_due ctx (r_status r) then
        (let ctx' = ctx\<lparr>ctx_analysis := True\<rparr>;
             ev = EvRunAnalysis ctx' (ctx_execute ctx') (Src (ctx_input ctx'))
         in case runAnalysis ext h ctx' (ctx_execute ctx') (Src (ctx_input ctx')) of
              Inl e \<Rightarrow> (Inl e, ctx', [ev])
            | Inr u \<Rightarrow> (Inr r, ctx', [ev]))
      else (Inr r, ctx, []))"

text \<open>Lines 62-70: the record of the current attempt.\<close>

definition case_result ::
  "NormalizedCase \<Rightarrow> ContextSubTask \<Rightarrow> RunResult \<Rightarrow> STATUS \<Rightarrow> int \<Rightarrow> message \<Rightarrow> CaseResult" where
  "case_result c ctxSubtask res status score message =
     \<lparr> r_id = c_id c,
       r_subtaskId = subtask_id ctxSubtask,
       r_status = status,
       r_score = score,
       r_time = res_time res,
       r_memory = res_memory res,
       r_message = message \<rparr>"

text \<open>
  \<^verbatim>\<open>judgeCase(c)(ctx, ctxSubtask, runner)\<close>, called after the history \<open>h\<close>. The result
  lists the events of the whole call, those of a retried attempt included.
\<close>

definition judgeCase ::
  "externals \<Rightarrow> NormalizedCase \<Rightarrow> Context \<Rightarrow> ContextSubTask \<Rightarrow> runner option \<Rightarrow> event list
     \<Rightarrow> outcome" where
  "judgeCase ext c ctx ctxSubtask runner h =
     (case attempt ext c ctx h of
        (Inl e, evs) \<Rightarrow> (Inl e, ctx, evs)
      | (Inr (res, status, score, message), evs) \<Rightarrow>
          (case (if retry_fires runner ctx c status
                 then retry (the runner) ctx ctxSubtask (h @ evs)
                 else finish ext ctx (case_result c ctxSubtask res status score message) (h @ evs)) of
             (r, ctx', evs') \<Rightarrow> (r, ctx', evs @ evs')))"

text \<open>Counting the calls of one kind in a list of events.\<close>

fun is_checker :: "event \<Rightarrow> bool" where
  "is_checker (EvChecker k cfg) = True"
| "is_checker e = False"

fun is_runner :: "event \<Rightarrow> bool" where
  "is_runner (EvRunner ctx s) = True"
| "is_runner e = False"

fun is_analysis :: "event \<Rightarrow> bool" where
  "is_analysis (EvRunAnalysis ctx e f) = True"
| "is_analysis e = False"

fun is_del :: "event \<Rightarrow> bool" where
  "is_del (EvDel f) = True"
| "is_del e = False"

fun is_run :: "event \<Rightarrow> bool" where
  "is_run (EvRunQueued cmd p) = True"
| "is_run e = False"

definition calls :: "(event \<Rightarrow> bool) \<Rightarrow> event list \<Rightarrow> nat" where
  "calls P evs = length (filter P evs)"

section \<open>Sequences of invocations, and the strategy\<close>

text \<open>
  Modelled from the spec: the flow engine \<^verbatim>\<open>runFlow\<close> of \<^verbatim>\<open>../flow\<close> is not part of the
  sources at hand. By the spec the runner it hands to the Case Runner is "the same
  callable, passed in so the function can recursively retry itself". Line 56 calls the
  runner with two arguments, so inside the re-invocation \<^verbatim>\<open>runner\<close> is
  \<^verbatim>\<open>undefined\<close>.
\<close>

definition self_runner :: "externals \<Rightarrow> NormalizedCase \<Rightarrow> runner" where
  "self_runner ext c = (\<lambda>ctx ctxSubtask h. judgeCase ext c ctx ctxSubtask None h)"

text \<open>
  A sequence of Case Runner invocations on one context, one after the other, each with or
  without the runner callback. The sequence goes on after a rejected invocation.
\<close>

fun judgeCases ::
  "externals \<Rightarrow> (NormalizedCase \<times> ContextSubTask \<times> bool) list \<Rightarrow> Context \<Rightarrow> event list
     \<Rightarrow> Context \<times> event list" where
  "judgeCases ext [] ctx h = (ctx, [])"
| "judgeCases ext ((c, ctxSubtask, with_runner) # rest) ctx h =
     (case judgeCase ext c ctx ctxSubtask
             (if with_runner then Some (self_runner ext c) else None) h of
        (r, ctx', evs) \<Rightarrow>
          (case judgeCases ext rest ctx' (h @ evs) of
             (ctx'', evs') \<Rightarrow> (ctx'', evs @ evs')))"

text \<open>
  Lines 75-80, the compile callback. Both compilations are started, the submission's first;
  \<^verbatim>\<open>Promise.all\<close> rejects when one of them does, and then the assignment to
  \<^verbatim>\<open>[ctx.execute, ctx.checker]\<close> does not happen. When both reject, the model yields
  the rejection of the submission's compilation; \<^verbatim>\<open>Promise.all\<close> yields the one that
  comes first in time, which the model, having no clock, does not tell apart.
\<close>

definition Promise_all2 :: "error + 'a \<Rightarrow> error + 'b \<Rightarrow> error + 'a \<times> 'b" where
  "Promise_all2 p q =
     (case p of
        Inl e \<Rightarrow> Inl e
      | Inr a \<Rightarrow> (case q of Inl e \<Rightarrow> Inl e | Inr b \<Rightarrow> Inr (a, b)))"

definition compile_stage ::
  "externals \<Rightarrow> Context \<Rightarrow> event list \<Rightarrow> (error + unit) \<times> Context \<times> event list" where
  "compile_stage ext ctx h =
     (let ev1 = EvCompile (ctx_lang ctx) (ctx_code ctx);
          p = compile ext h (ctx_lang ctx) (ctx_code ctx);
          ev2 = EvCompileLocalFile ''checker'' (cfg_checker (ctx_config ctx))
                  (cfg_checker_type (ctx_config ctx));
          q = compileLocalFile ext (h @ [ev1]) ''checker'' (cfg_checker (ctx_config ctx))
                  (cfg_checker_type (ctx_config ctx))
      in case Promise_all2 p q of
           Inl e \<Rightarrow> (Inl e, ctx, [ev1, ev2])
         | Inr (e1, e2) \<Rightarrow> (Inr (), ctx\<lparr>ctx_execute := e1, ctx_checker := e2\<rparr>, [ev1, ev2]))"

text \<open>The task object handed to the flow engine (line 74: \<^verbatim>\<open>{ compile, judgeCase }\<close>).\<close>

record Task =
  task_compile :: "Context \<Rightarrow> event list \<Rightarrow> (error + unit) \<times> Context \<times> event list"
  task_judgeCase ::
    "NormalizedCase \<Rightarrow> Context \<Rightarrow> ContextSubTask \<Rightarrow> runner option \<Rightarrow> event list \<Rightarrow> outcome"

text \<open>
  Modelled from the spec: \<^verbatim>\<open>runFlow\<close> is not part of the sources at hand. By the spec it
  "sequences compile, per-subtask, per-case stages", a compile failure "is fatal to the whole
  submission", it "invokes the Case Runner once per test case, per subtask, supplying subtask
  context", and a rejection of the Case Runner halts the remaining cases. The subtasks
  come with the problem configuration, here an argument.
\<close>

fun flow_cases ::
  "(NormalizedCase \<Rightarrow> Context \<Rightarrow> ContextSubTask \<Rightarrow> runner option \<Rightarrow> event list \<Rightarrow> outcome)
     \<Rightarrow> (ContextSubTask \<times> NormalizedCase) list \<Rightarrow> Context \<Rightarrow> event list
     \<Rightarrow> (error + CaseResult list) \<times> Context \<times> event list" where
  "flow_cases jc [] ctx h = (Inr [], ctx, [])"
| "flow_cases jc ((ctxSubtask, c) # rest) ctx h =
     (case jc c ctx ctxSubtask (Some (\<lambda>ctx' s h'. jc c ctx' s None h')) h of
        (Inl e, ctx', evs) \<Rightarrow> (Inl e, ctx', evs)
      | (Inr r, ctx', evs) \<Rightarrow>
          (case flow_cases jc rest ctx' (h @ evs) of
             (Inl e, ctx'', evs') \<Rightarrow> (Inl e, ctx'', evs @ evs')
           | (Inr rs, ctx'', evs') \<Rightarrow> (Inr (r # rs), ctx'', evs @ evs')))"

definition runFlow ::
  "Context \<Rightarrow> Task \<Rightarrow> (ContextSubTask \<times> NormalizedCase list) list \<Rightarrow> event list
     \<Rightarrow> (error + CaseResult list) \<times> Context \<times> event list" where
  "runFlow ctx task subtasks h =
     (case task_compile task ctx h of
        (Inl e, ctx', evs) \<Rightarrow> (Inl e, ctx', evs)
      | (Inr u, ctx', evs) \<Rightarrow>
          (case flow_cases (task_judgeCase task)
                  (concat (map (\<lambda>(s, cs). map (Pair s) cs) subtasks)) ctx' (h @ evs) of
             (r, ctx'', evs') \<Rightarrow> (r, ctx'', evs @ evs')))"

text \<open>Lines 74-82: the strategy.\<close>

definition judge ::
  "externals \<Rightarrow> Context \<Rightarrow> (ContextSubTask \<times> NormalizedCase list) list \<Rightarrow> event list
     \<Rightarrow> (error + CaseResult list) \<times> Context \<times> event list" where
  "judge ext ctx subtasks h =
     runFlow ctx \<lparr> task_compile = compile_stage ext, task_judgeCase = judgeCase ext \<rparr> subtasks h"

section \<open>Concrete scenarios\<close>

text \<open>
  A case with a limit of 1000 ms and 256 KB worth 100 points, a context with a given rerun
  budget, and collaborators that answer from fixed data: the sandbox answers its \<open>k\<close>-th run
  with the \<open>k\<close>-th result of a list and is unreachable afterwards, the registry holds one
  checker under the key \<open>default\<close>, deleting the file \<open>f2\<close> fails, and the signal table
  has an entry for signal 11.
\<close>

definition ex_case :: NormalizedCase where
  "ex_case = \<lparr> c_id = 7, c_input = ''7.in'', c_output = ''7.out'',
               c_time = 1000, c_memory = 256, c_score = 100 \<rparr>"

definition ex_subtask :: ContextSubTask where
  "ex_subtask = \<lparr> subtask_id = 1 \<rparr>"

definition ex_ctx :: "int \<Rightarrow> Context" where
  "ex_ctx budget =
     \<lparr> ctx_lang = ''cc'', ctx_code = ''main'', ctx_input = ''7.in'',
       ctx_execute = \<lparr> ex_execute = ''a.out'', ex_copyIn = None \<rparr>,
       ctx_checker = \<lparr> ex_execute = ''checker'', ex_copyIn = None \<rparr>,
       ctx_config = \<lparr> cfg_filename = None, cfg_checker_type = ''default'',
                      cfg_checker = ''checker.cc'', cfg_detail = None \<rparr>,
       ctx_env = [], ctx_rerun = budget, ctx_analysis = False, ctx_rejudged = False \<rparr>"

definition ex_res :: "STATUS \<Rightarrow> int option \<Rightarrow> bool \<Rightarrow> int \<Rightarrow> int \<Rightarrow> RunResult" where
  "ex_res s code sig t m =
     \<lparr> res_status = s, res_code = code, res_signalled = sig, res_time = t, res_memory = m,
       res_fileIds = [(''stdout'', ''f1''), (''stderr'', ''f2'')] \<rparr>"

definition ex_ext :: "RunResult list \<Rightarrow> (error + CheckResult) \<Rightarrow> externals" where
  "ex_ext rs verdict =
     \<lparr> getLang = (\<lambda>l. \<lparr> address_space_limit = None, process_limit = None \<rparr>),
       runQueued = (\<lambda>h cmd p. case drop (calls is_run h) rs of
                                 [] \<Rightarrow> Inl (Rejected ''sandbox unreachable'')
                               | r # _ \<Rightarrow> Inr r),
       checkers = (\<lambda>k. if k = ''default'' then Some (\<lambda>h cfg. verdict) else None),
       del = (\<lambda>h f. if f = ''f2'' then Inl (Rejected ''no such file'') else Inr ()),
       signals = (\<lambda>n. if n = 11 then Some ''Segmentation fault'' else None),
       runAnalysis = (\<lambda>h ctx e f. Inr ()),
       compile = (\<lambda>h l src. Inr \<lparr> ex_execute = ''a.out'', ex_copyIn = None \<rparr>),
       compileLocalFile = (\<lambda>h name src t. Inr \<lparr> ex_execute = ''checker'', ex_copyIn = None \<rparr>) \<rparr>"

definition ex_run :: event where
  "ex_run = EvRunQueued ''a.out''
     \<lparr> rq_stdin = Src ''7.in'', rq_copyIn = None, rq_filename = None, rq_time = 1000,
       rq_memory = 256, rq_cacheStdoutAndStderr = True, rq_addressSpaceLimit = None,
       rq_processLimit = None \<rparr>"

definition ex_wrong :: CheckResult where
  "ex_wrong = \<lparr> cr_status = STATUS_WRONG_ANSWER, cr_score = 0, cr_message = MsgString ''wrong'' \<rparr>"

definition ex_accept :: CheckResult where
  "ex_accept = \<lparr> cr_status = STATUS_ACCEPTED, cr_score = 100, cr_message = MsgString ''ok'' \<rparr>"

definition ex_slow_verdict :: CheckResult where
  "ex_slow_verdict =
     \<lparr> cr_status = STATUS_TIME_LIMIT_EXCEEDED, cr_score = 0, cr_message = MsgString ''slow'' \<rparr>"

definition ex_uncompiled :: Context where
  "ex_uncompiled =
     (ex_ctx 0)\<lparr> ctx_execute := \<lparr> ex_execute = ''none'', ex_copyIn = None \<rparr>,
                 ctx_checker := \<lparr> ex_execute = ''none'', ex_copyIn = None \<rparr> \<rparr>"

section \<open>The analysis discipline\<close>

text \<open>
  What a computation that starts with the context \<open>ctx\<close> and yields a context and a list of
  events has to respect: it leaves the rejudge flag alone, never clears the analysis flag,
  calls the analysis capability at most once and not at all on a rejudge or with the flag
  set, leaves the flag set when it has called the capability, and calls it on a context
  whose flag is already set.
\<close>

definition analysis_once :: "Context \<Rightarrow> Context \<times> event list \<Rightarrow> bool" where
  "analysis_once ctx out \<longleftrightarrow>
     ctx_rejudged (fst out) = ctx_rejudged ctx
     \<and> (ctx_analysis ctx \<longrightarrow> ctx_analysis (fst out))
     \<and> calls is_analysis (snd out) \<le> (if ctx_rejudged ctx \<or> ctx_analysis ctx then 0 else 1)
     \<and> (0 < calls is_analysis (snd out) \<longrightarrow> ctx_analysis (fst out))
     \<and> (\<forall>cx e f. EvRunAnalysis cx e f \<in> set (snd out) \<longrightarrow> ctx_analysis cx \<and> \<not> ctx_rejudged cx)"

section \<open>Basic facts\<close>

lemma del_each_events: "snd (del_each ext fs h) = map EvDel fs"
  by (induction fs arbitrary: h) (simp_all add: Let_def case_prod_beta)

lemma cleanup_events: "cleanup ext res h = map EvDel (Object_values (res_fileIds res))"
  by (simp add: cleanup_def Let_def case_prod_beta del_each_events)

lemma calls_Nil [simp]: "calls P [] = 0"
  by (simp add: calls_def)

lemma calls_Cons [simp]: "calls P (e # evs) = (if P e then Suc (calls P evs) else calls P evs)"
  by (simp add: calls_def)

lemma calls_append [simp]: "calls P (xs @ ys) = calls P xs + calls P ys"
  by (simp add: calls_def)

lemma calls_checker_dels [simp]: "calls is_checker (map EvDel fs) = 0"
  by (induction fs) simp_all

lemma calls_runner_dels [simp]: "calls is_runner (map EvDel fs) = 0"
  by (induction fs) simp_all

lemma calls_analysis_dels [simp]: "calls is_analysis (map EvDel fs) = 0"
  by (induction fs) simp_all

lemma filter_del_dels [simp]: "filter is_del (map EvDel fs) = map EvDel fs"
  by (induction fs) simp_all

text \<open>The run, once the sandbox has answered.\<close>

lemma attempt_answered:
  assumes "runQueued ext h (ex_execute (ctx_execute ctx)) (run_params ext c ctx) = Inr res"
  shows "attempt ext c ctx h =
           (case classify ext c ctx res
                   (h @ [EvRunQueued (ex_execute (ctx_execute ctx)) (run_params ext c ctx)]) of
              (Inl e, ev2) \<Rightarrow>
                (Inl e, EvRunQueued (ex_execute (ctx_execute ctx)) (run_params ext c ctx) # ev2)
            | (Inr (status, score, message), ev2) \<Rightarrow>
                (Inr (res, status, score, message),
                 EvRunQueued (ex_execute (ctx_execute ctx)) (run_params ext c ctx) # ev2
                   @ map EvDel (Object_values (res_fileIds res))))"
  using assms by (simp add: attempt_def Let_def cleanup_events split: prod.splits sum.splits)

lemma attempt_res:
  assumes "runQueued ext h (ex_execute (ctx_execute ctx)) (run_params ext c ctx) = Inr res"
    and "attempt ext c ctx h = (Inr (res', status, score, message), evs)"
  shows "res' = res"
  using assms by (simp add: attempt_def Let_def split: sum.splits prod.splits)

lemma attempt_no_runner [simp]: "calls is_runner (snd (attempt ext c ctx h)) = 0"
  by (simp add: attempt_def classify_def Let_def cleanup_events
        split: sum.splits prod.splits option.splits)

lemma attempt_no_analysis [simp]: "calls is_analysis (snd (attempt ext c ctx h)) = 0"
  by (simp add: attempt_def classify_def Let_def cleanup_events
        split: sum.splits prod.splits option.splits)

text \<open>What \<open>finish\<close> returns: the record, or the rejection of the analysis.\<close>

lemma finish_result:
  "case fst (finish ext ctx r h) of
     Inr r' \<Rightarrow> r' = r
   | Inl e \<Rightarrow> analysis_due ctx (r_status r) \<and>
       runAnalysis ext h (ctx\<lparr>ctx_analysis := True\<rparr>) (ctx_execute ctx) (Src (ctx_input ctx)) = Inl e"
  by (simp add: finish_def Let_def split: sum.splits)

lemma finish_no_runner [simp]: "calls is_runner (snd (snd (finish ext ctx r h))) = 0"
  by (simp add: finish_def Let_def split: sum.splits)

lemma finish_rerun [simp]: "ctx_rerun (fst (snd (finish ext ctx r h))) = ctx_rerun ctx"
  by (simp add: finish_def Let_def split: sum.splits)

lemma case_result_sel [simp]:
  "r_status (case_result c ctxSubtask res status score message) = status"
  "r_score (case_result c ctxSubtask res status score message) = score"
  "r_message (case_result c ctxSubtask res status score message) = message"
  by (simp_all add: case_result_def)

lemma judgeCase_completed:
  assumes "attempt ext c ctx h = (Inr (res, status, score, message), evs)"
  shows "judgeCase ext c ctx ctxSubtask runner h =
     (case (if retry_fires runner ctx c status
            then retry (the runner) ctx ctxSubtask (h @ evs)
            else finish ext ctx (case_result c ctxSubtask res status score message) (h @ evs)) of
        (r, ctx', evs') \<Rightarrow> (r, ctx', evs @ evs'))"
  using assms by (simp add: judgeCase_def)

lemma judgeCase_no_retry:
  assumes "attempt ext c ctx h = (Inr (res, status, score, message), evs)"
    and "\<not> retry_fires runner ctx c status"
  shows "case fst (judgeCase ext c ctx ctxSubtask runner h) of
     Inr r \<Rightarrow> r = case_result c ctxSubtask res status score message
   | Inl e \<Rightarrow> analysis_due ctx status \<and>
       runAnalysis ext (h @ evs) (ctx\<lparr>ctx_analysis := True\<rparr>) (ctx_execute ctx)
         (Src (ctx_input ctx)) = Inl e"
  using assms finish_result [where ext = ext and ctx = ctx and h = "h @ evs"
      and r = "case_result c ctxSubtask res status score message"]
  by (simp add: judgeCase_completed case_prod_beta split: sum.splits)

lemmas ex_defs = ex_ext_def ex_res_def ex_case_def ex_ctx_def ex_subtask_def ex_run_def
  run_params_def Object_values_def

lemmas run_defs = judgeCase_def attempt_def classify_def cleanup_events retry_fires_def
  finish_def analysis_due_def case_result_def retry_def self_runner_def Let_def

section \<open>Limit checks\<close>

lemma attempt_time:
  assumes "runQueued ext h (ex_execute (ctx_execute ctx)) (run_params ext c ctx) = Inr res"
    and "res_status res = STATUS_ACCEPTED"
    and "c_time c < res_time res"
  shows "attempt ext c ctx h =
           (Inr (res, STATUS_TIME_LIMIT_EXCEEDED, 0, MsgString ''''),
            EvRunQueued (ex_execute (ctx_execute ctx)) (run_params ext c ctx)
              # map EvDel (Object_values (res_fileIds res)))"
  using assms by (simp add: attempt_answered classify_def)

text \<open>
  Claim C1, as amended. When the sandbox reports \<open>STATUS_ACCEPTED\<close> and a time above
  \<open>c_time c\<close>, the attempt ends with status \<open>STATUS_TIME_LIMIT_EXCEEDED\<close>, score \<open>0\<close> and
  the empty message, and its only calls are the sandbox run and the deletions: the checker
  is not invoked by that attempt. The Case Runner returns the record with that status and
  score \<open>0\<close> unless line 54 hands the case to the runner (a runner was supplied, the budget
  is not zero, the time limit is at most 5000); then it returns what the runner yields.
\<close>

theorem C1_time_limit_exceeded:
  assumes "runQueued ext h (ex_execute (ctx_execute ctx)) (run_params ext c ctx) = Inr res"
    and "res_status res = STATUS_ACCEPTED"
    and "c_time c < res_time res"
  shows "attempt ext c ctx h =
           (Inr (res, STATUS_TIME_LIMIT_EXCEEDED, 0, MsgString ''''),
            EvRunQueued (ex_execute (ctx_execute ctx)) (run_params ext c ctx)
              # map EvDel (Object_values (res_fileIds res)))
       \<and> calls is_checker (snd (attempt ext c ctx h)) = 0
       \<and> judgeCase ext c ctx ctxSubtask runner h =
           (if retry_fires runner ctx c STATUS_TIME_LIMIT_EXCEEDED
            then case retry (the runner) ctx ctxSubtask (h @ snd (attempt ext c ctx h)) of
                   (r, ctx', evs) \<Rightarrow> (r, ctx', snd (attempt ext c ctx h) @ evs)
            else (Inr \<lparr> r_id = c_id c, r_subtaskId = subtask_id ctxSubtask,
                        r_status = STATUS_TIME_LIMIT_EXCEEDED, r_score = 0,
                        r_time = res_time res, r_memory = res_memory res,
                        r_message = MsgString '''' \<rparr>,
                  ctx, snd (attempt ext c ctx h)))"
proof -
  note a = attempt_time [OF assms]
  have "judgeCase ext c ctx ctxSubtask runner h =
           (if retry_fires runner ctx c STATUS_TIME_LIMIT_EXCEEDED
            then case retry (the runner) ctx ctxSubtask (h @ snd (attempt ext c ctx h)) of
                   (r, ctx', evs) \<Rightarrow> (r, ctx', snd (attempt ext c ctx h) @ evs)
            else (Inr \<lparr> r_id = c_id c, r_subtaskId = subtask_id ctxSubtask,
                        r_status = STATUS_TIME_LIMIT_EXCEEDED, r_score = 0,
                        r_time = res_time res, r_memory = res_memory res,
                        r_message = MsgString '''' \<rparr>,
                  ctx, snd (attempt ext c ctx h)))"
    by (simp add: judgeCase_completed [OF a] a finish_def analysis_due_def case_result_def)
  then show ?thesis using a by simp
qed

text \<open>
  The example of the spec: limits 1000 ms and 256 KB, the sandbox reports
  \<open>STATUS_ACCEPTED\<close>, 1200 ms and 100000 bytes.
\<close>

theorem C1_witness:
  "res_status (ex_res STATUS_ACCEPTED None False 1200 100000) = STATUS_ACCEPTED
   \<and> c_time ex_case < res_time (ex_res STATUS_ACCEPTED None False 1200 100000)
   \<and> judgeCase (ex_ext [ex_res STATUS_ACCEPTED None False 1200 100000] (Inl (Rejected ''unused'')))
       ex_case (ex_ctx 0) ex_subtask None [] =
       (Inr \<lparr> r_id = 7, r_subtaskId = 1, r_status = STATUS_TIME_LIMIT_EXCEEDED, r_score = 0,
               r_time = 1200, r_memory = 100000, r_message = MsgString '''' \<rparr>,
        ex_ctx 0, [ex_run, EvDel ''f1'', EvDel ''f2''])
   \<and> calls is_checker [ex_run, EvDel ''f1'', EvDel ''f2''] = 0"
proof -
  let ?res = "ex_res STATUS_ACCEPTED None False 1200 100000"
  let ?ext = "ex_ext [?res] (Inl (Rejected ''unused''))"
  have h1: "runQueued ?ext [] (ex_execute (ctx_execute (ex_ctx 0)))
              (run_params ?ext ex_case (ex_ctx 0)) = Inr ?res"
    by (simp add: ex_ext_def)
  have h2: "res_status ?res = STATUS_ACCEPTED"
    by (simp add: ex_res_def)
  have h3: "c_time ex_case < res_time ?res"
    by (simp add: ex_res_def ex_case_def)
  from C1_time_limit_exceeded [OF h1 h2 h3, where ctxSubtask = ex_subtask and runner = None] h2 h3
  show ?thesis
    by (simp add: retry_fires_def ex_defs)
qed

text \<open>
  Claim C1 as stated fails when the retry fires. The example of the spec with a budget of 2
  and the Case Runner as its own runner: the first run takes 1200 ms against a limit of
  1000, the retried run 900 ms. The Case Runner returns \<open>STATUS_ACCEPTED\<close> with score
  \<open>100\<close>, and the checker is called in the course of the invocation.
\<close>

theorem C1_counterexample:
  "res_status (ex_res STATUS_ACCEPTED None False 1200 100000) = STATUS_ACCEPTED
   \<and> c_time ex_case < res_time (ex_res STATUS_ACCEPTED None False 1200 100000)
   \<and> runQueued
        (ex_ext [ex_res STATUS_ACCEPTED None False 1200 100000,
                 ex_res STATUS_ACCEPTED None False 900 100000] (Inr ex_accept))
        [] (ex_execute (ctx_execute (ex_ctx 2)))
        (run_params
           (ex_ext [ex_res STATUS_ACCEPTED None False 1200 100000,
                    ex_res STATUS_ACCEPTED None False 900 100000] (Inr ex_accept))
           ex_case (ex_ctx 2)) =
       Inr (ex_res STATUS_ACCEPTED None False 1200 100000)
   \<and> judgeCase
        (ex_ext [ex_res STATUS_ACCEPTED None False 1200 100000,
                 ex_res STATUS_ACCEPTED None False 900 100000] (Inr ex_accept))
        ex_case (ex_ctx 2) ex_subtask
        (Some (self_runner
           (ex_ext [ex_res STATUS_ACCEPTED None False 1200 100000,
                    ex_res STATUS_ACCEPTED None False 900 100000] (Inr ex_accept)) ex_case)) [] =
      (Inr \<lparr> r_id = 7, r_subtaskId = 1, r_status = STATUS_ACCEPTED, r_score = 100,
              r_time = 900, r_memory = 100000, r_message = MsgString ''ok'' \<rparr>,
       ex_ctx 1,
       [ex_run, EvDel ''f1'', EvDel ''f2'', EvRunner (ex_ctx 1) ex_subtask, ex_run,
        EvChecker ''default'' (check_config ex_case (ex_ctx 1)
          (ex_res STATUS_ACCEPTED None False 900 100000)),
        EvDel ''f1'', EvDel ''f2''])
   \<and> STATUS_ACCEPTED \<noteq> STATUS_TIME_LIMIT_EXCEEDED
   \<and> (100::int) \<noteq> 0"
  by (simp add: run_defs ex_accept_def ex_defs)

text \<open>
  Claim C2. When the sandbox reports \<open>STATUS_ACCEPTED\<close>, a time within the limit and a
  memory above \<open>c_memory c * 1024\<close>, the Case Runner returns the record with status
  \<open>STATUS_MEMORY_LIMIT_EXCEEDED\<close> and score \<open>0\<close>, whatever the runner and the budget, and
  the checker is not invoked.
\<close>

theorem C2_memory_limit_exceeded:
  assumes "runQueued ext h (ex_execute (ctx_execute ctx)) (run_params ext c ctx) = Inr res"
    and "res_status res = STATUS_ACCEPTED"
    and "res_time res \<le> c_time c"
    and "c_memory c * 1024 < res_memory res"
  shows "attempt ext c ctx h =
           (Inr (res, STATUS_MEMORY_LIMIT_EXCEEDED, 0, MsgString ''''),
            EvRunQueued (ex_execute (ctx_execute ctx)) (run_params ext c ctx)
              # map EvDel (Object_values (res_fileIds res)))
       \<and> judgeCase ext c ctx ctxSubtask runner h =
           (Inr \<lparr> r_id = c_id c, r_subtaskId = subtask_id ctxSubtask,
                   r_status = STATUS_MEMORY_LIMIT_EXCEEDED, r_score = 0,
                   r_time = res_time res, r_memory = res_memory res,
                   r_message = MsgString '''' \<rparr>,
            ctx,
            EvRunQueued (ex_execute (ctx_execute ctx)) (run_params ext c ctx)
              # map EvDel (Object_values (res_fileIds res)))
       \<and> calls is_checker (snd (snd (judgeCase ext c ctx ctxSubtask runner h))) = 0"
proof -
  have a: "attempt ext c ctx h =
           (Inr (res, STATUS_MEMORY_LIMIT_EXCEEDED, 0, MsgString ''''),
            EvRunQueued (ex_execute (ctx_execute ctx)) (run_params ext c ctx)
              # map EvDel (Object_values (res_fileIds res)))"
    using assms by (simp add: attempt_answered classify_def)
  have j: "judgeCase ext c ctx ctxSubtask runner h =
           (Inr \<lparr> r_id = c_id c, r_subtaskId = subtask_id ctxSubtask,
                   r_status = STATUS_MEMORY_LIMIT_EXCEEDED, r_score = 0,
                   r_time = res_time res, r_memory = res_memory res,
                   r_message = MsgString '''' \<rparr>,
            ctx,
            EvRunQueued (ex_execute (ctx_execute ctx)) (run_params ext c ctx)
              # map EvDel (Object_values (res_fileIds res)))"
    by (simp add: judgeCase_completed [OF a] retry_fires_def finish_def analysis_due_def
          case_result_def)
  show ?thesis using a j by simp
qed

theorem C2_witness:
  "res_status (ex_res STATUS_ACCEPTED None False 900 300000) = STATUS_ACCEPTED
   \<and> res_time (ex_res STATUS_ACCEPTED None False 900 300000) \<le> c_time ex_case
   \<and> c_memory ex_case * 1024 < res_memory (ex_res STATUS_ACCEPTED None False 900 300000)
   \<and> judgeCase (ex_ext [ex_res STATUS_ACCEPTED None False 900 300000] (Inl (Rejected ''unused'')))
       ex_case (ex_ctx 2) ex_subtask
       (Some (self_runner (ex_ext [ex_res STATUS_ACCEPTED None False 900 300000]
                 (Inl (Rejected ''unused''))) ex_case)) [] =
       (Inr \<lparr> r_id = 7, r_subtaskId = 1, r_status = STATUS_MEMORY_LIMIT_EXCEEDED, r_score = 0,
               r_time = 900, r_memory = 300000, r_message = MsgString '''' \<rparr>,
        ex_ctx 2, [ex_run, EvDel ''f1'', EvDel ''f2''])"
proof -
  let ?res = "ex_res STATUS_ACCEPTED None False 900 300000"
  let ?ext = "ex_ext [?res] (Inl (Rejected ''unused''))"
  have h1: "runQueued ?ext [] (ex_execute (ctx_execute (ex_ctx 2)))
              (run_params ?ext ex_case (ex_ctx 2)) = Inr ?res"
    by (simp add: ex_ext_def)
  have h2: "res_status ?res = STATUS_ACCEPTED"
    by (simp add: ex_res_def)
  have h3: "res_time ?res \<le> c_time ex_case"
    by (simp add: ex_res_def ex_case_def)
  have h4: "c_memory ex_case * 1024 < res_memory ?res"
    by (simp add: ex_res_def ex_case_def)
  from C2_memory_limit_exceeded [OF h1 h2 h3 h4, where ctxSubtask = ex_subtask
      and runner = "Some (self_runner ?ext ex_case)"]
    h2 h3 h4
  show ?thesis
    by (simp add: ex_defs)
qed

section \<open>The checker's verdict\<close>

text \<open>
  Claim C3, as amended. When the sandbox reports \<open>STATUS_ACCEPTED\<close> within both limits, the
  checker registered under \<open>cfg_checker_type\<close> is called exactly once by the attempt, with
  the argument of lines 38-46, and the status, score and message of the attempt are the
  triple it returns. The returned record carries that triple unless the checker's status is
  \<open>STATUS_TIME_LIMIT_EXCEEDED\<close> and line 54 retries; then the Case Runner returns what the
  runner yields. The call rejects only if the analysis capability does.
\<close>

theorem C3_checker_verdict:
  assumes "runQueued ext h (ex_execute (ctx_execute ctx)) (run_params ext c ctx) = Inr res"
    and "res_status res = STATUS_ACCEPTED"
    and "res_time res \<le> c_time c"
    and "res_memory res \<le> c_memory c * 1024"
    and "checkers ext (cfg_checker_type (ctx_config ctx)) = Some chk"
    and "chk (h @ [EvRunQueued (ex_execute (ctx_execute ctx)) (run_params ext c ctx)])
           (check_config c ctx res) = Inr v"
  shows "attempt ext c ctx h =
           (Inr (res, cr_status v, cr_score v, cr_message v),
            EvRunQueued (ex_execute (ctx_execute ctx)) (run_params ext c ctx)
              # EvChecker (cfg_checker_type (ctx_config ctx)) (check_config c ctx res)
              # map EvDel (Object_values (res_fileIds res)))
       \<and> filter is_checker (snd (attempt ext c ctx h)) =
           [EvChecker (cfg_checker_type (ctx_config ctx)) (check_config c ctx res)]
       \<and> (if retry_fires runner ctx c (cr_status v)
          then judgeCase ext c ctx ctxSubtask runner h =
                 (case retry (the runner) ctx ctxSubtask (h @ snd (attempt ext c ctx h)) of
                    (r, ctx', evs) \<Rightarrow> (r, ctx', snd (attempt ext c ctx h) @ evs))
          else (case fst (judgeCase ext c ctx ctxSubtask runner h) of
                  Inr r \<Rightarrow> r = \<lparr> r_id = c_id c, r_subtaskId = subtask_id ctxSubtask,
                                  r_status = cr_status v, r_score = cr_score v,
                                  r_time = res_time res, r_memory = res_memory res,
                                  r_message = cr_message v \<rparr>
                | Inl e \<Rightarrow> analysis_due ctx (cr_status v) \<and>
                    runAnalysis ext (h @ snd (attempt ext c ctx h)) (ctx\<lparr>ctx_analysis := True\<rparr>)
                      (ctx_execute ctx) (Src (ctx_input ctx)) = Inl e))"
proof -
  have a: "attempt ext c ctx h =
           (Inr (res, cr_status v, cr_score v, cr_message v),
            EvRunQueued (ex_execute (ctx_execute ctx)) (run_params ext c ctx)
              # EvChecker (cfg_checker_type (ctx_config ctx)) (check_config c ctx res)
              # map EvDel (Object_values (res_fileIds res)))"
    using assms by (simp add: attempt_answered classify_def Let_def)
  have f: "filter is_checker (snd (attempt ext c ctx h)) =
           [EvChecker (cfg_checker_type (ctx_config ctx)) (check_config c ctx res)]"
    using calls_checker_dels [of "Object_values (res_fileIds res)"]
    by (simp add: a calls_def)
  show ?thesis
  proof (cases "retry_fires runner ctx c (cr_status v)")
    case True
    then show ?thesis using a f by (simp add: judgeCase_completed [OF a])
  next
    case False
    then show ?thesis using a f judgeCase_no_retry [OF a False, of ctxSubtask]
      by (simp add: case_result_def split: sum.splits)
  qed
qed

theorem C3_witness:
  "res_status (ex_res STATUS_ACCEPTED None False 900 100000) = STATUS_ACCEPTED
   \<and> res_time (ex_res STATUS_ACCEPTED None False 900 100000) \<le> c_time ex_case
   \<and> res_memory (ex_res STATUS_ACCEPTED None False 900 100000) \<le> c_memory ex_case * 1024
   \<and> fst (judgeCase (ex_ext [ex_res STATUS_ACCEPTED None False 900 100000] (Inr ex_wrong))
       ex_case (ex_ctx 2) ex_subtask
       (Some (self_runner (ex_ext [ex_res STATUS_ACCEPTED None False 900 100000]
                 (Inr ex_wrong)) ex_case)) []) =
       Inr \<lparr> r_id = 7, r_subtaskId = 1, r_status = STATUS_WRONG_ANSWER, r_score = 0,
               r_time = 900, r_memory = 100000, r_message = MsgString ''wrong'' \<rparr>
   \<and> calls is_checker (snd (attempt (ex_ext [ex_res STATUS_ACCEPTED None False 900 100000]
        (Inr ex_wrong)) ex_case (ex_ctx 2) [])) = 1"
proof -
  let ?res = "ex_res STATUS_ACCEPTED None False 900 100000"
  let ?ext = "ex_ext [?res] (Inr ex_wrong)"
  have h1: "runQueued ?ext [] (ex_execute (ctx_execute (ex_ctx 2)))
              (run_params ?ext ex_case (ex_ctx 2)) = Inr ?res"
    by (simp add: ex_ext_def)
  have h2: "res_status ?res = STATUS_ACCEPTED"
    by (simp add: ex_res_def)
  have h3: "res_time ?res \<le> c_time ex_case"
    by (simp add: ex_res_def ex_case_def)
  have h4: "res_memory ?res \<le> c_memory ex_case * 1024"
    by (simp add: ex_res_def ex_case_def)
  have h5: "checkers ?ext (cfg_checker_type (ctx_config (ex_ctx 2))) = Some (\<lambda>h cfg. Inr ex_wrong)"
    by (simp add: ex_ext_def ex_ctx_def)
  have h6: "(\<lambda>h cfg. Inr ex_wrong)
              ([] @ [EvRunQueued (ex_execute (ctx_execute (ex_ctx 2)))
                       (run_params ?ext ex_case (ex_ctx 2))])
              (check_config ex_case (ex_ctx 2) ?res) = Inr ex_wrong"
    by simp
  from C3_checker_verdict [OF h1 h2 h3 h4 h5 h6, where ctxSubtask = ex_subtask
      and runner = "Some (self_runner ?ext ex_case)"]
    h2 h3 h4
  show ?thesis
    by (simp add: retry_fires_def ex_wrong_def calls_def ex_ext_def ex_res_def ex_case_def
          ex_subtask_def split: sum.splits)
qed

text \<open>
  Claim C3 as stated fails when the checker itself answers \<open>STATUS_TIME_LIMIT_EXCEEDED\<close>
  and the retry fires. A budget of 1, the Case Runner as its own runner: the first run is
  within both limits and the checker answers \<open>STATUS_TIME_LIMIT_EXCEEDED\<close>; the retried run
  ends with exit code 1. The returned record carries \<open>STATUS_RUNTIME_ERROR\<close> and the
  template message, not the triple of the checker.
\<close>

theorem C3_counterexample:
  "res_status (ex_res STATUS_ACCEPTED None False 900 100000) = STATUS_ACCEPTED
   \<and> res_time (ex_res STATUS_ACCEPTED None False 900 100000) \<le> c_time ex_case
   \<and> res_memory (ex_res STATUS_ACCEPTED None False 900 100000) \<le> c_memory ex_case * 1024
   \<and> runQueued
        (ex_ext [ex_res STATUS_ACCEPTED None False 900 100000,
                 ex_res STATUS_RUNTIME_ERROR (Some 1) False 10 2048] (Inr ex_slow_verdict))
        [] (ex_execute (ctx_execute (ex_ctx 1)))
        (run_params
           (ex_ext [ex_res STATUS_ACCEPTED None False 900 100000,
                    ex_res STATUS_RUNTIME_ERROR (Some 1) False 10 2048] (Inr ex_slow_verdict))
           ex_case (ex_ctx 1)) =
       Inr (ex_res STATUS_ACCEPTED None False 900 100000)
   \<and> cr_status ex_slow_verdict = STATUS_TIME_LIMIT_EXCEEDED
   \<and> judgeCase
        (ex_ext [ex_res STATUS_ACCEPTED None False 900 100000,
                 ex_res STATUS_RUNTIME_ERROR (Some 1) False 10 2048] (Inr ex_slow_verdict))
        ex_case (ex_ctx 1) ex_subtask
        (Some (self_runner
           (ex_ext [ex_res STATUS_ACCEPTED None False 900 100000,
                    ex_res STATUS_RUNTIME_ERROR (Some 1) False 10 2048] (Inr ex_slow_verdict))
           ex_case)) [] =
      (Inr \<lparr> r_id = 7, r_subtaskId = 1, r_status = STATUS_RUNTIME_ERROR, r_score = 0,
              r_time = 10, r_memory = 2048,
              r_message = MsgTemplate ''Your program returned {0}.'' [1] \<rparr>,
       (ex_ctx 0)\<lparr>ctx_analysis := True\<rparr>,
       [ex_run,
        EvChecker ''default'' (check_config ex_case (ex_ctx 1)
          (ex_res STATUS_ACCEPTED None False 900 100000)),
        EvDel ''f1'', EvDel ''f2'', EvRunner (ex_ctx 0) ex_subtask, ex_run,
        EvDel ''f1'', EvDel ''f2'',
        EvRunAnalysis ((ex_ctx 0)\<lparr>ctx_analysis := True\<rparr>)
          \<lparr> ex_execute = ''a.out'', ex_copyIn = None \<rparr> (Src ''7.in'')])
   \<and> STATUS_RUNTIME_ERROR \<noteq> STATUS_TIME_LIMIT_EXCEEDED"
  by (simp add: run_defs ex_slow_verdict_def check_config_def ex_defs)

section \<open>The retry\<close>





text \<open>
  The budget as a count. With the Case Runner as its own runner, an invocation spends one
  unit of the budget for each call of the runner, and a budget that is not negative stays
  so; over a sequence of invocations the retries never exceed the budget the sequence
  started with.
\<close>

lemma judgeCase_None_budget:
  "ctx_rerun (fst (snd (judgeCase ext c ctx ctxSubtask None h))) = ctx_rerun ctx
   \<and> calls is_runner (snd (snd (judgeCase ext c ctx ctxSubtask None h))) = 0"
proof (cases "attempt ext c ctx h")
  case (Pair r evs)
  have z: "calls is_runner evs = 0"
    using attempt_no_runner [of ext c ctx h] by (simp add: Pair)
  show ?thesis
  proof (cases r)
    case (Inl e)
    then show ?thesis using z by (simp add: judgeCase_def Pair)
  next
    case (Inr x)
    obtain res status score message where x: "x = (res, status, score, message)"
      by (cases x) auto
    have a: "attempt ext c ctx h = (Inr (res, status, score, message), evs)"
      by (simp add: Pair Inr x)
    show ?thesis
      using z by (simp add: judgeCase_completed [OF a] retry_fires_def case_prod_beta)
  qed
qed

lemma judgeCase_self_budget:
  "ctx_rerun (fst (snd (judgeCase ext c ctx ctxSubtask (Some (self_runner ext c)) h))) =
     ctx_rerun ctx
       - int (calls is_runner (snd (snd (judgeCase ext c ctx ctxSubtask (Some (self_runner ext c)) h))))
   \<and> (0 \<le> ctx_rerun ctx \<longrightarrow>
        0 \<le> ctx_rerun (fst (snd (judgeCase ext c ctx ctxSubtask (Some (self_runner ext c)) h))))"
proof (cases "attempt ext c ctx h")
  case (Pair r evs)
  have z: "calls is_runner evs = 0"
    using attempt_no_runner [of ext c ctx h] by (simp add: Pair)
  show ?thesis
  proof (cases r)
    case (Inl e)
    then show ?thesis using z by (simp add: judgeCase_def Pair)
  next
    case (Inr x)
    obtain res status score message where x: "x = (res, status, score, message)"
      by (cases x) auto
    have a: "attempt ext c ctx h = (Inr (res, status, score, message), evs)"
      by (simp add: Pair Inr x)
    show ?thesis
    proof (cases "retry_fires (Some (self_runner ext c)) ctx c status")
      case False
      then show ?thesis
        using z by (simp add: judgeCase_completed [OF a] case_prod_beta)
    next
      case True
      let ?ctx = "ctx\<lparr>ctx_rerun := ctx_rerun ctx - 1\<rparr>"
      let ?h = "h @ evs @ [EvRunner ?ctx ctxSubtask]"
      have nz: "ctx_rerun ctx \<noteq> 0"
        using True by (simp add: retry_fires_def)
      have inner: "ctx_rerun (fst (snd (judgeCase ext c ?ctx ctxSubtask None ?h))) = ctx_rerun ctx - 1
          \<and> calls is_runner (snd (snd (judgeCase ext c ?ctx ctxSubtask None ?h))) = 0"
        using judgeCase_None_budget [of ext c ?ctx ctxSubtask ?h] by simp
      show ?thesis
        using True z inner nz
        by (simp add: judgeCase_completed [OF a] retry_def self_runner_def Let_def case_prod_beta)
    qed
  qed
qed

lemma judgeCase_self_spent:
  "ctx_rerun (fst (snd (judgeCase ext c ctx ctxSubtask (Some (self_runner ext c)) h))) =
     ctx_rerun ctx
       - int (calls is_runner (snd (snd (judgeCase ext c ctx ctxSubtask (Some (self_runner ext c)) h))))"
  using judgeCase_self_budget [of ext c ctx ctxSubtask h] by blast

lemma judgeCase_self_nonneg:
  assumes "0 \<le> ctx_rerun ctx"
  shows "0 \<le> ctx_rerun (fst (snd (judgeCase ext c ctx ctxSubtask (Some (self_runner ext c)) h)))"
  using assms judgeCase_self_budget [of ext c ctx ctxSubtask h] by blast

lemma judgeCases_spent:
  "ctx_rerun (fst (judgeCases ext invs ctx h)) =
     ctx_rerun ctx - int (calls is_runner (snd (judgeCases ext invs ctx h)))"
proof (induction invs arbitrary: ctx h)
  case Nil
  then show ?case by simp
next
  case (Cons inv invs)
  obtain c ctxSubtask with_runner where inv: "inv = (c, ctxSubtask, with_runner)"
    by (cases inv) auto
  show ?case
  proof (cases with_runner)
    case True
    then show ?thesis
      using Cons.IH judgeCase_self_spent [of ext c ctx ctxSubtask h]
      by (simp add: inv case_prod_beta)
  next
    case False
    then show ?thesis
      using Cons.IH judgeCase_None_budget [of ext c ctx ctxSubtask h]
      by (simp add: inv case_prod_beta)
  qed
qed

lemma judgeCases_nonneg:
  assumes "0 \<le> ctx_rerun ctx"
  shows "0 \<le> ctx_rerun (fst (judgeCases ext invs ctx h))"
  using assms
proof (induction invs arbitrary: ctx h)
  case Nil
  then show ?case by simp
next
  case (Cons inv invs)
  obtain c ctxSubtask with_runner where inv: "inv = (c, ctxSubtask, with_runner)"
    by (cases inv) auto
  show ?case
  proof (cases with_runner)
    case True
    have "0 \<le> ctx_rerun (fst (snd (judgeCase ext c ctx ctxSubtask (Some (self_runner ext c)) h)))"
      using Cons.prems by (rule judgeCase_self_nonneg)
    then show ?thesis
      using True Cons.IH by (simp add: inv case_prod_beta)
  next
    case False
    have "0 \<le> ctx_rerun (fst (snd (judgeCase ext c ctx ctxSubtask None h)))"
      using Cons.prems judgeCase_None_budget [of ext c ctx ctxSubtask h] by simp
    then show ?thesis
      using False Cons.IH by (simp add: inv case_prod_beta)
  qed
qed

lemma retries_within_budget:
  assumes "0 \<le> ctx_rerun ctx"
  shows "int (calls is_runner (snd (judgeCases ext invs ctx h))) \<le> ctx_rerun ctx"
  using judgeCases_nonneg [OF assms, of ext invs h] judgeCases_spent [of ext invs ctx h]
  by simp

section \<open>Runtime errors\<close>

text \<open>
  Claim C7, as amended. When the sandbox reports \<open>STATUS_RUNTIME_ERROR\<close> with an exit
  code other than \<open>0\<close>: if the code is below 32 and the process was signalled, the message
  is the entry of the signal table for the code (\<^verbatim>\<open>undefined\<close> where the table has none);
  otherwise it is the template \<^verbatim>\<open>Your program returned {0}.\<close> with the code as its
  parameter. The status stays \<open>STATUS_RUNTIME_ERROR\<close>, the score is \<open>0\<close>, and this is what
  the Case Runner returns.
\<close>

theorem C7_exit_code_message:
  assumes "runQueued ext h (ex_execute (ctx_execute ctx)) (run_params ext c ctx) = Inr res"
    and "res_status res = STATUS_RUNTIME_ERROR"
    and "res_code res = Some code"
    and "code \<noteq> 0"
  shows "attempt ext c ctx h =
           (Inr (res, STATUS_RUNTIME_ERROR, 0,
                 (if code < 32 \<and> res_signalled res
                  then (case signals ext code of None \<Rightarrow> MsgUndefined | Some s \<Rightarrow> MsgString s)
                  else MsgTemplate ''Your program returned {0}.'' [code])),
            EvRunQueued (ex_execute (ctx_execute ctx)) (run_params ext c ctx)
              # map EvDel (Object_values (res_fileIds res)))
       \<and> (case fst (judgeCase ext c ctx ctxSubtask runner h) of
             Inr r \<Rightarrow> r = \<lparr> r_id = c_id c, r_subtaskId = subtask_id ctxSubtask,
                             r_status = STATUS_RUNTIME_ERROR, r_score = 0,
                             r_time = res_time res, r_memory = res_memory res,
                             r_message =
                               (if code < 32 \<and> res_signalled res
                                then (case signals ext code of
                                        None \<Rightarrow> MsgUndefined | Some s \<Rightarrow> MsgString s)
                                else MsgTemplate ''Your program returned {0}.'' [code]) \<rparr>
           | Inl e \<Rightarrow> analysis_due ctx STATUS_RUNTIME_ERROR \<and>
               runAnalysis ext (h @ snd (attempt ext c ctx h)) (ctx\<lparr>ctx_analysis := True\<rparr>)
                 (ctx_execute ctx) (Src (ctx_input ctx)) = Inl e)"
proof -
  have a: "attempt ext c ctx h =
           (Inr (res, STATUS_RUNTIME_ERROR, 0,
                 (if code < 32 \<and> res_signalled res
                  then (case signals ext code of None \<Rightarrow> MsgUndefined | Some s \<Rightarrow> MsgString s)
                  else MsgTemplate ''Your program returned {0}.'' [code])),
            EvRunQueued (ex_execute (ctx_execute ctx)) (run_params ext c ctx)
              # map EvDel (Object_values (res_fileIds res)))"
    using assms by (simp add: attempt_answered classify_def)
  have n: "\<not> retry_fires runner ctx c STATUS_RUNTIME_ERROR"
    by (simp add: retry_fires_def)
  show ?thesis
    using a judgeCase_no_retry [OF a n, of ctxSubtask]
    by (simp add: case_result_def split: sum.splits)
qed

text \<open>The example of the spec: exit code 11, signalled.\<close>

theorem C7_witness:
  "res_status (ex_res STATUS_RUNTIME_ERROR (Some 11) True 10 2048) = STATUS_RUNTIME_ERROR
   \<and> res_code (ex_res STATUS_RUNTIME_ERROR (Some 11) True 10 2048) = Some 11
   \<and> fst (judgeCase (ex_ext [ex_res STATUS_RUNTIME_ERROR (Some 11) True 10 2048] (Inr ex_accept))
        ex_case (ex_ctx 0) ex_subtask None []) =
      Inr \<lparr> r_id = 7, r_subtaskId = 1, r_status = STATUS_RUNTIME_ERROR, r_score = 0,
             r_time = 10, r_memory = 2048, r_message = MsgString ''Segmentation fault'' \<rparr>"
proof -
  let ?res = "ex_res STATUS_RUNTIME_ERROR (Some 11) True 10 2048"
  let ?ext = "ex_ext [?res] (Inr ex_accept)"
  have h1: "runQueued ?ext [] (ex_execute (ctx_execute (ex_ctx 0)))
              (run_params ?ext ex_case (ex_ctx 0)) = Inr ?res"
    by (simp add: ex_ext_def)
  have h2: "res_status ?res = STATUS_RUNTIME_ERROR"
    by (simp add: ex_res_def)
  have h3: "res_code ?res = Some 11"
    by (simp add: ex_res_def)
  have h4: "(11::int) \<noteq> 0"
    by simp
  from C7_exit_code_message [OF h1 h2 h3 h4, where ctxSubtask = ex_subtask and runner = None] h2 h3
  show ?thesis
    by (simp add: ex_ext_def ex_res_def ex_case_def ex_subtask_def split: sum.splits)
qed

text \<open>
  Claim C7 as stated fails for an exit code that is present and \<open>0\<close>: the process was not
  signalled, so the claim asks for the template, and line 49 leaves the message empty.
\<close>

theorem C7_counterexample:
  "res_status (ex_res STATUS_RUNTIME_ERROR (Some 0) False 10 2048) = STATUS_RUNTIME_ERROR
   \<and> res_code (ex_res STATUS_RUNTIME_ERROR (Some 0) False 10 2048) = Some 0
   \<and> \<not> res_signalled (ex_res STATUS_RUNTIME_ERROR (Some 0) False 10 2048)
   \<and> judgeCase (ex_ext [ex_res STATUS_RUNTIME_ERROR (Some 0) False 10 2048] (Inr ex_accept))
        ex_case (ex_ctx 0) ex_subtask None [] =
      (Inr \<lparr> r_id = 7, r_subtaskId = 1, r_status = STATUS_RUNTIME_ERROR, r_score = 0,
              r_time = 10, r_memory = 2048, r_message = MsgString '''' \<rparr>,
       (ex_ctx 0)\<lparr>ctx_analysis := True\<rparr>,
       [ex_run, EvDel ''f1'', EvDel ''f2'',
        EvRunAnalysis ((ex_ctx 0)\<lparr>ctx_analysis := True\<rparr>)
          \<lparr> ex_execute = ''a.out'', ex_copyIn = None \<rparr> (Src ''7.in'')])
   \<and> MsgString '''' \<noteq> MsgTemplate ''Your program returned {0}.'' [0]"
  by (simp add: judgeCase_def attempt_def classify_def cleanup_events retry_fires_def
        finish_def analysis_due_def case_result_def Let_def ex_defs)

text \<open>
  Claim C10. When the sandbox reports \<open>STATUS_RUNTIME_ERROR\<close> and the exit code is absent
  or \<open>0\<close>, the message of the run is the empty string, and so is the message of the
  returned record: line 49 tests the code for truthiness.
\<close>

theorem C10_falsy_exit_code:
  assumes "runQueued ext h (ex_execute (ctx_execute ctx)) (run_params ext c ctx) = Inr res"
    and "res_status res = STATUS_RUNTIME_ERROR"
    and "res_code res = None \<or> res_code res = Some 0"
  shows "attempt ext c ctx h =
           (Inr (res, STATUS_RUNTIME_ERROR, 0, MsgString ''''),
            EvRunQueued (ex_execute (ctx_execute ctx)) (run_params ext c ctx)
              # map EvDel (Object_values (res_fileIds res)))
       \<and> (case fst (judgeCase ext c ctx ctxSubtask runner h) of
             Inr r \<Rightarrow> r = \<lparr> r_id = c_id c, r_subtaskId = subtask_id ctxSubtask,
                             r_status = STATUS_RUNTIME_ERROR, r_score = 0,
                             r_time = res_time res, r_memory = res_memory res,
                             r_message = MsgString '''' \<rparr>
           | Inl e \<Rightarrow> analysis_due ctx STATUS_RUNTIME_ERROR \<and>
               runAnalysis ext (h @ snd (attempt ext c ctx h)) (ctx\<lparr>ctx_analysis := True\<rparr>)
                 (ctx_execute ctx) (Src (ctx_input ctx)) = Inl e)"
proof -
  have a: "attempt ext c ctx h =
           (Inr (res, STATUS_RUNTIME_ERROR, 0, MsgString ''''),
            EvRunQueued (ex_execute (ctx_execute ctx)) (run_params ext c ctx)
              # map EvDel (Object_values (res_fileIds res)))"
    using assms by (auto simp add: attempt_answered classify_def)
  have n: "\<not> retry_fires runner ctx c STATUS_RUNTIME_ERROR"
    by (simp add: retry_fires_def)
  show ?thesis
    using a judgeCase_no_retry [OF a n, of ctxSubtask]
    by (simp add: case_result_def split: sum.splits)
qed

theorem C10_witness:
  "res_status (ex_res STATUS_RUNTIME_ERROR (Some 0) False 10 2048) = STATUS_RUNTIME_ERROR
   \<and> res_code (ex_res STATUS_RUNTIME_ERROR (Some 0) False 10 2048) = Some 0
   \<and> fst (judgeCase (ex_ext [ex_res STATUS_RUNTIME_ERROR (Some 0) False 10 2048] (Inr ex_accept))
        ex_case (ex_ctx 2) ex_subtask
        (Some (self_runner (ex_ext [ex_res STATUS_RUNTIME_ERROR (Some 0) False 10 2048]
           (Inr ex_accept)) ex_case)) []) =
      Inr \<lparr> r_id = 7, r_subtaskId = 1, r_status = STATUS_RUNTIME_ERROR, r_score = 0,
             r_time = 10, r_memory = 2048, r_message = MsgString '''' \<rparr>"
proof -
  let ?res = "ex_res STATUS_RUNTIME_ERROR (Some 0) False 10 2048"
  let ?ext = "ex_ext [?res] (Inr ex_accept)"
  have h1: "runQueued ?ext [] (ex_execute (ctx_execute (ex_ctx 2)))
              (run_params ?ext ex_case (ex_ctx 2)) = Inr ?res"
    by (simp add: ex_ext_def)
  have h2: "res_status ?res = STATUS_RUNTIME_ERROR"
    by (simp add: ex_res_def)
  have h3: "res_code ?res = None \<or> res_code ?res = Some 0"
    by (simp add: ex_res_def)
  from C10_falsy_exit_code [OF h1 h2 h3, where ctxSubtask = ex_subtask
      and runner = "Some (self_runner ?ext ex_case)"] h2
  show ?thesis
    by (simp add: ex_ext_def ex_res_def ex_case_def ex_subtask_def split: sum.splits)
qed

section \<open>Classification never upgrades\<close>


lemma classify_passes:
  assumes "res_status res \<noteq> STATUS_ACCEPTED"
  shows "classify ext c ctx res h' =
     (Inr (res_status res, 0,
        (case res_code res of
           None \<Rightarrow> MsgString ''''
         | Some code \<Rightarrow>
             if res_status res = STATUS_RUNTIME_ERROR \<and> code \<noteq> 0 then
               if code < 32 \<and> res_signalled res
               then (case signals ext code of None \<Rightarrow> MsgUndefined | Some s \<Rightarrow> MsgString s)
               else MsgTemplate ''Your program returned {0}.'' [code]
             else MsgString '''')), [])"
  using assms by (simp add: classify_def split: option.splits)

lemma classify_accepted:
  assumes "res_status res = STATUS_ACCEPTED"
    and "classify ext c ctx res h' = (Inr (status, score, message), ev2)"
  shows "status = STATUS_TIME_LIMIT_EXCEEDED \<and> score = 0 \<and> message = MsgString ''''
       \<or> status = STATUS_MEMORY_LIMIT_EXCEEDED \<and> score = 0 \<and> message = MsgString ''''
       \<or> (\<exists>chk v. checkers ext (cfg_checker_type (ctx_config ctx)) = Some chk
             \<and> chk h' (check_config c ctx res) = Inr v
             \<and> status = cr_status v \<and> score = cr_score v \<and> message = cr_message v)"
  using assms
  by (auto simp add: classify_def Let_def split: if_splits option.splits sum.splits)

lemma attempt_completed:
  assumes "runQueued ext h (ex_execute (ctx_execute ctx)) (run_params ext c ctx) = Inr res"
    and "attempt ext c ctx h = (Inr (res', status, score, message), evs)"
  shows "\<exists>ev2. classify ext c ctx res
            (h @ [EvRunQueued (ex_execute (ctx_execute ctx)) (run_params ext c ctx)]) =
              (Inr (status, score, message), ev2)
          \<and> evs = EvRunQueued (ex_execute (ctx_execute ctx)) (run_params ext c ctx) # ev2
                   @ map EvDel (Object_values (res_fileIds res))"
  using assms(2) unfolding attempt_answered [OF assms(1)]
  by (auto split: prod.splits sum.splits)

text \<open>
  Claim C8, as amended: the claim holds of each attempt. Let an attempt end with some
  status. That status is never better than the raw status of the sandbox, for every
  relation \<open>better\<close> on verdicts that is irreflexive and puts nothing above
  \<open>STATUS_ACCEPTED\<close>: a raw status other than \<open>STATUS_ACCEPTED\<close> is kept as it is, with
  score \<open>0\<close>, and a raw \<open>STATUS_ACCEPTED\<close> becomes \<open>STATUS_TIME_LIMIT_EXCEEDED\<close>,
  \<open>STATUS_MEMORY_LIMIT_EXCEEDED\<close> or the verdict of the checker. A raw status that is
  neither \<open>STATUS_ACCEPTED\<close> nor \<open>STATUS_RUNTIME_ERROR\<close> with a (nonzero) exit code goes
  into the returned record unchanged, with the empty message, unless it is
  \<open>STATUS_TIME_LIMIT_EXCEEDED\<close> and line 54 retries; then the Case Runner returns what the
  runner yields.
\<close>

theorem C8_classification_never_upgrades:
  assumes "runQueued ext h (ex_execute (ctx_execute ctx)) (run_params ext c ctx) = Inr res"
    and "attempt ext c ctx h = (Inr (res', status, score, message), evs)"
    and "\<And>a. \<not> better a a"
    and "\<And>a. \<not> better a STATUS_ACCEPTED"
  shows "\<not> better status (res_status res)
       \<and> (res_status res \<noteq> STATUS_ACCEPTED \<longrightarrow> status = res_status res \<and> score = 0)
       \<and> (res_status res = STATUS_ACCEPTED \<longrightarrow>
            status = STATUS_TIME_LIMIT_EXCEEDED \<and> score = 0 \<and> message = MsgString ''''
          \<or> status = STATUS_MEMORY_LIMIT_EXCEEDED \<and> score = 0 \<and> message = MsgString ''''
          \<or> (\<exists>chk v. checkers ext (cfg_checker_type (ctx_config ctx)) = Some chk
                \<and> chk (h @ [EvRunQueued (ex_execute (ctx_execute ctx)) (run_params ext c ctx)])
                     (check_config c ctx res) = Inr v
                \<and> status = cr_status v \<and> score = cr_score v \<and> message = cr_message v))
       \<and> (res_status res \<noteq> STATUS_ACCEPTED
            \<and> (res_status res \<noteq> STATUS_RUNTIME_ERROR \<or> res_code res = None \<or> res_code res = Some 0)
          \<longrightarrow> status = res_status res \<and> score = 0 \<and> message = MsgString ''''
              \<and> (if retry_fires runner ctx c (res_status res)
                  then judgeCase ext c ctx ctxSubtask runner h =
                         (case retry (the runner) ctx ctxSubtask (h @ evs) of
                            (r, ctx', evs') \<Rightarrow> (r, ctx', evs @ evs'))
                  else (case fst (judgeCase ext c ctx ctxSubtask runner h) of
                          Inr r \<Rightarrow> r = \<lparr> r_id = c_id c, r_subtaskId = subtask_id ctxSubtask,
                                          r_status = res_status res, r_score = 0,
                                          r_time = res_time res, r_memory = res_memory res,
                                          r_message = MsgString '''' \<rparr>
                        | Inl e \<Rightarrow> analysis_due ctx (res_status res) \<and>
                            runAnalysis ext (h @ evs) (ctx\<lparr>ctx_analysis := True\<rparr>)
                              (ctx_execute ctx) (Src (ctx_input ctx)) = Inl e)))"
proof -
  let ?run = "EvRunQueued (ex_execute (ctx_execute ctx)) (run_params ext c ctx)"
  from attempt_completed [OF assms(1,2)] obtain ev2 where
    cl: "classify ext c ctx res (h @ [?run]) = (Inr (status, score, message), ev2)"
    by blast
  have eq: "res' = res"
    using assms(1,2) by (rule attempt_res)
  have pass: "status = res_status res \<and> score = 0" if "res_status res \<noteq> STATUS_ACCEPTED"
    using cl classify_passes [OF that, of ext c ctx "h @ [?run]"] by simp
  have acc: "status = STATUS_TIME_LIMIT_EXCEEDED \<and> score = 0 \<and> message = MsgString ''''
          \<or> status = STATUS_MEMORY_LIMIT_EXCEEDED \<and> score = 0 \<and> message = MsgString ''''
          \<or> (\<exists>chk v. checkers ext (cfg_checker_type (ctx_config ctx)) = Some chk
                \<and> chk (h @ [?run]) (check_config c ctx res) = Inr v
                \<and> status = cr_status v \<and> score = cr_score v \<and> message = cr_message v)"
    if "res_status res = STATUS_ACCEPTED"
    using classify_accepted [OF that cl] .
  have nb: "\<not> better status (res_status res)"
  proof (cases "res_status res = STATUS_ACCEPTED")
    case True
    then show ?thesis using assms(4) by simp
  next
    case False
    then show ?thesis using pass assms(3) by simp
  qed
  have through: "status = res_status res \<and> score = 0 \<and> message = MsgString ''''
              \<and> (if retry_fires runner ctx c (res_status res)
                  then judgeCase ext c ctx ctxSubtask runner h =
                         (case retry (the runner) ctx ctxSubtask (h @ evs) of
                            (r, ctx', evs') \<Rightarrow> (r, ctx', evs @ evs'))
                  else (case fst (judgeCase ext c ctx ctxSubtask runner h) of
                          Inr r \<Rightarrow> r = \<lparr> r_id = c_id c, r_subtaskId = subtask_id ctxSubtask,
                                          r_status = res_status res, r_score = 0,
                                          r_time = res_time res, r_memory = res_memory res,
                                          r_message = MsgString '''' \<rparr>
                        | Inl e \<Rightarrow> analysis_due ctx (res_status res) \<and>
                            runAnalysis ext (h @ evs) (ctx\<lparr>ctx_analysis := True\<rparr>)
                              (ctx_execute ctx) (Src (ctx_input ctx)) = Inl e))"
    if na: "res_status res \<noteq> STATUS_ACCEPTED"
      and nc: "res_status res \<noteq> STATUS_RUNTIME_ERROR \<or> res_code res = None \<or> res_code res = Some 0"
  proof -
    have v: "status = res_status res \<and> score = 0 \<and> message = MsgString ''''"
      using cl classify_passes [OF na, of ext c ctx "h @ [?run]"] nc
      by (auto split: option.splits)
    then have att: "attempt ext c ctx h = (Inr (res, res_status res, 0, MsgString ''''), evs)"
      using assms(2) eq by simp
    show ?thesis
    proof (cases "retry_fires runner ctx c (res_status res)")
      case True
      then show ?thesis using v by (simp add: judgeCase_completed [OF att])
    next
      case False
      then show ?thesis using v judgeCase_no_retry [OF att False, of ctxSubtask]
        by (simp add: case_result_def split: sum.splits)
    qed
  qed
  show ?thesis using nb pass acc through by blast
qed

text \<open>
  A raw \<open>STATUS_TIME_LIMIT_EXCEEDED\<close> without a runner, and the relation "accepted is
  better than anything else".
\<close>

theorem C8_witness:
  "res_status (ex_res STATUS_TIME_LIMIT_EXCEEDED None False 1000 2048) \<noteq> STATUS_ACCEPTED
   \<and> fst (judgeCase (ex_ext [ex_res STATUS_TIME_LIMIT_EXCEEDED None False 1000 2048] (Inr ex_accept))
        ex_case (ex_ctx 0) ex_subtask None []) =
      Inr \<lparr> r_id = 7, r_subtaskId = 1, r_status = STATUS_TIME_LIMIT_EXCEEDED, r_score = 0,
             r_time = 1000, r_memory = 2048, r_message = MsgString '''' \<rparr>
   \<and> \<not> (STATUS_TIME_LIMIT_EXCEEDED = STATUS_ACCEPTED
          \<and> res_status (ex_res STATUS_TIME_LIMIT_EXCEEDED None False 1000 2048) \<noteq> STATUS_ACCEPTED)"
proof -
  let ?res = "ex_res STATUS_TIME_LIMIT_EXCEEDED None False 1000 2048"
  let ?ext = "ex_ext [?res] (Inr ex_accept)"
  let ?better = "\<lambda>a b. a = STATUS_ACCEPTED \<and> b \<noteq> STATUS_ACCEPTED"
  let ?evs = "[ex_run, EvDel ''f1'', EvDel ''f2'']"
  have h1: "runQueued ?ext [] (ex_execute (ctx_execute (ex_ctx 0)))
              (run_params ?ext ex_case (ex_ctx 0)) = Inr ?res"
    by (simp add: ex_ext_def)
  have h2: "attempt ?ext ex_case (ex_ctx 0) [] =
              (Inr (?res, STATUS_TIME_LIMIT_EXCEEDED, 0, MsgString ''''), ?evs)"
    by (simp add: attempt_answered classify_def ex_defs)
  have h3: "\<And>a. \<not> ?better a a"
    by simp
  have h4: "\<And>a. \<not> ?better a STATUS_ACCEPTED"
    by simp
  have st: "res_status ?res = STATUS_TIME_LIMIT_EXCEEDED"
    by (simp add: ex_res_def)
  from C8_classification_never_upgrades [of ?ext "[]" "ex_ctx 0" ex_case ?res ?res
      STATUS_TIME_LIMIT_EXCEEDED 0 "MsgString ''''" ?evs ?better, OF h1 h2 h3 h4,
      where ctxSubtask = ex_subtask and runner = None]
  show ?thesis
    by (simp add: st retry_fires_def ex_ext_def ex_res_def ex_case_def ex_subtask_def
          split: sum.splits)
qed

text \<open>
  Claim C8 as stated fails when the retry fires. The sandbox reports a raw
  \<open>STATUS_TIME_LIMIT_EXCEEDED\<close>; with a budget of 1 and the Case Runner as its own runner
  the case is run again, the retried run is accepted, and the Case Runner returns
  \<open>STATUS_ACCEPTED\<close> with score \<open>100\<close> and the message of the checker.
\<close>

theorem C8_counterexample:
  "res_status (ex_res STATUS_TIME_LIMIT_EXCEEDED None False 1000 2048) = STATUS_TIME_LIMIT_EXCEEDED
   \<and> runQueued
        (ex_ext [ex_res STATUS_TIME_LIMIT_EXCEEDED None False 1000 2048,
                 ex_res STATUS_ACCEPTED None False 900 100000] (Inr ex_accept))
        [] (ex_execute (ctx_execute (ex_ctx 1)))
        (run_params
           (ex_ext [ex_res STATUS_TIME_LIMIT_EXCEEDED None False 1000 2048,
                    ex_res STATUS_ACCEPTED None False 900 100000] (Inr ex_accept))
           ex_case (ex_ctx 1)) =
       Inr (ex_res STATUS_TIME_LIMIT_EXCEEDED None False 1000 2048)
   \<and> judgeCase
        (ex_ext [ex_res STATUS_TIME_LIMIT_EXCEEDED None False 1000 2048,
                 ex_res STATUS_ACCEPTED None False 900 100000] (Inr ex_accept))
        ex_case (ex_ctx 1) ex_subtask
        (Some (self_runner
           (ex_ext [ex_res STATUS_TIME_LIMIT_EXCEEDED None False 1000 2048,
                    ex_res STATUS_ACCEPTED None False 900 100000] (Inr ex_accept)) ex_case)) [] =
      (Inr \<lparr> r_id = 7, r_subtaskId = 1, r_status = STATUS_ACCEPTED, r_score = 100,
              r_time = 900, r_memory = 100000, r_message = MsgString ''ok'' \<rparr>,
       ex_ctx 0,
       [ex_run, EvDel ''f1'', EvDel ''f2'', EvRunner (ex_ctx 0) ex_subtask, ex_run,
        EvChecker ''default'' (check_config ex_case (ex_ctx 0)
          (ex_res STATUS_ACCEPTED None False 900 100000)),
        EvDel ''f1'', EvDel ''f2''])
   \<and> STATUS_ACCEPTED \<noteq> STATUS_TIME_LIMIT_EXCEEDED
   \<and> MsgString ''ok'' \<noteq> MsgString ''''"
  by (simp add: run_defs ex_accept_def ex_defs)

section \<open>Cleanup\<close>

lemma count_list_dels [simp]: "count_list (map EvDel fs) (EvDel f) = count_list fs f"
  by (induction fs) simp_all













section \<open>The failure analysis\<close>

lemma calls_zero_iff: "calls P evs = 0 \<longleftrightarrow> (\<forall>e \<in> set evs. \<not> P e)"
  by (simp add: calls_def filter_empty_conv)

lemma no_analysis_event:
  assumes "calls is_analysis evs = 0"
  shows "EvRunAnalysis cx e f \<notin> set evs"
  using assms by (auto simp add: calls_zero_iff)

lemma analysis_once_finish: "analysis_once ctx (snd (finish ext ctx r h))"
  by (simp add: analysis_once_def finish_def analysis_due_def Let_def split: sum.splits)

lemma analysis_once_prepend:
  assumes "calls is_analysis evs = 0"
    and "analysis_once ctx (ctx', evs')"
  shows "analysis_once ctx (ctx', evs @ evs')"
  using assms no_analysis_event [OF assms(1)]
  by (simp add: analysis_once_def)

lemma analysis_once_trans:
  assumes "analysis_once ctx (ctx', evs)"
    and "analysis_once ctx' (ctx'', evs')"
  shows "analysis_once ctx (ctx'', evs @ evs')"
proof -
  from assms(1) have a1: "ctx_rejudged ctx' = ctx_rejudged ctx"
    and a2: "ctx_analysis ctx \<Longrightarrow> ctx_analysis ctx'"
    and a3: "calls is_analysis evs \<le> (if ctx_rejudged ctx \<or> ctx_analysis ctx then 0 else 1)"
    and a4: "0 < calls is_analysis evs \<Longrightarrow> ctx_analysis ctx'"
    and a5: "\<And>cx e f. EvRunAnalysis cx e f \<in> set evs \<Longrightarrow> ctx_analysis cx \<and> \<not> ctx_rejudged cx"
    by (auto simp add: analysis_once_def)
  from assms(2) have b1: "ctx_rejudged ctx'' = ctx_rejudged ctx'"
    and b2: "ctx_analysis ctx' \<Longrightarrow> ctx_analysis ctx''"
    and b3: "calls is_analysis evs' \<le> (if ctx_rejudged ctx' \<or> ctx_analysis ctx' then 0 else 1)"
    and b4: "0 < calls is_analysis evs' \<Longrightarrow> ctx_analysis ctx''"
    and b5: "\<And>cx e f. EvRunAnalysis cx e f \<in> set evs' \<Longrightarrow> ctx_analysis cx \<and> \<not> ctx_rejudged cx"
    by (auto simp add: analysis_once_def)
  have c1: "ctx_rejudged ctx'' = ctx_rejudged ctx"
    using a1 b1 by simp
  have c2: "ctx_analysis ctx \<longrightarrow> ctx_analysis ctx''"
    using a2 b2 by blast
  have c3: "calls is_analysis evs + calls is_analysis evs'
              \<le> (if ctx_rejudged ctx \<or> ctx_analysis ctx then 0 else 1)"
  proof (cases "0 < calls is_analysis evs")
    case True
    then have "ctx_analysis ctx'" by (rule a4)
    then have "calls is_analysis evs' = 0" using b3 by simp
    then show ?thesis using a3 by simp
  next
    case False
    then have z: "calls is_analysis evs = 0" by simp
    show ?thesis
    proof (cases "ctx_rejudged ctx \<or> ctx_analysis ctx")
      case True
      then have "ctx_rejudged ctx' \<or> ctx_analysis ctx'" using a1 a2 by blast
      then show ?thesis using b3 z True by simp
    next
      case False
      then show ?thesis using b3 z by (simp split: if_splits)
    qed
  qed
  have c4: "0 < calls is_analysis evs + calls is_analysis evs' \<longrightarrow> ctx_analysis ctx''"
    using a4 b2 b4 by (cases "0 < calls is_analysis evs") auto
  have c5: "\<forall>cx e f. EvRunAnalysis cx e f \<in> set evs \<union> set evs'
              \<longrightarrow> ctx_analysis cx \<and> \<not> ctx_rejudged cx"
    using a5 b5 by blast
  show ?thesis
    using c1 c2 c3 c4 c5 by (simp add: analysis_once_def)
qed

lemma analysis_once_rerun:
  assumes "analysis_once (ctx\<lparr>ctx_rerun := n\<rparr>) out"
  shows "analysis_once ctx out"
  using assms by (simp add: analysis_once_def)

lemma analysis_once_rejected: "analysis_once ctx (ctx, snd (attempt ext c ctx h))"
  by (simp add: analysis_once_def no_analysis_event)

lemma judgeCase_None_analysis:
  "analysis_once ctx (snd (judgeCase ext c ctx ctxSubtask None h))"
proof (cases "attempt ext c ctx h")
  case (Pair r evs)
  have z: "calls is_analysis evs = 0"
    using attempt_no_analysis [of ext c ctx h] by (simp add: Pair)
  show ?thesis
  proof (cases r)
    case (Inl e)
    then show ?thesis
      using analysis_once_rejected [of ctx ext c h] by (simp add: judgeCase_def Pair)
  next
    case (Inr x)
    obtain res status score message where x: "x = (res, status, score, message)"
      by (cases x) auto
    have a: "attempt ext c ctx h = (Inr (res, status, score, message), evs)"
      by (simp add: Pair Inr x)
    let ?f = "finish ext ctx (case_result c ctxSubtask res status score message) (h @ evs)"
    have "analysis_once ctx (fst (snd ?f), evs @ snd (snd ?f))"
      using analysis_once_prepend [OF z, of ctx "fst (snd ?f)" "snd (snd ?f)"]
        analysis_once_finish [of ctx ext "case_result c ctxSubtask res status score message" "h @ evs"]
      by simp
    then show ?thesis
      by (simp add: judgeCase_completed [OF a] retry_fires_def case_prod_beta)
  qed
qed

lemma judgeCase_self_analysis:
  "analysis_once ctx (snd (judgeCase ext c ctx ctxSubtask (Some (self_runner ext c)) h))"
proof (cases "attempt ext c ctx h")
  case (Pair r evs)
  have z: "calls is_analysis evs = 0"
    using attempt_no_analysis [of ext c ctx h] by (simp add: Pair)
  show ?thesis
  proof (cases r)
    case (Inl e)
    then show ?thesis
      using analysis_once_rejected [of ctx ext c h] by (simp add: judgeCase_def Pair)
  next
    case (Inr x)
    obtain res status score message where x: "x = (res, status, score, message)"
      by (cases x) auto
    have a: "attempt ext c ctx h = (Inr (res, status, score, message), evs)"
      by (simp add: Pair Inr x)
    show ?thesis
    proof (cases "retry_fires (Some (self_runner ext c)) ctx c status")
      case False
      let ?f = "finish ext ctx (case_result c ctxSubtask res status score message) (h @ evs)"
      have "analysis_once ctx (fst (snd ?f), evs @ snd (snd ?f))"
        using analysis_once_prepend [OF z, of ctx "fst (snd ?f)" "snd (snd ?f)"]
          analysis_once_finish [of ctx ext "case_result c ctxSubtask res status score message" "h @ evs"]
        by simp
      then show ?thesis
        using False by (simp add: judgeCase_completed [OF a] case_prod_beta)
    next
      case True
      let ?ctx = "ctx\<lparr>ctx_rerun := ctx_rerun ctx - 1\<rparr>"
      let ?h = "h @ evs @ [EvRunner ?ctx ctxSubtask]"
      let ?j = "judgeCase ext c ?ctx ctxSubtask None ?h"
      have "analysis_once ?ctx (snd ?j)"
        by (rule judgeCase_None_analysis)
      then have "analysis_once ctx (fst (snd ?j), snd (snd ?j))"
        using analysis_once_rerun [where ctx = ctx and n = "ctx_rerun ctx - 1" and out = "snd ?j"]
        by simp
      moreover have "calls is_analysis (evs @ [EvRunner ?ctx ctxSubtask]) = 0"
        using z by simp
      ultimately have "analysis_once ctx
          (fst (snd ?j), (evs @ [EvRunner ?ctx ctxSubtask]) @ snd (snd ?j))"
        by (rule analysis_once_prepend [rotated])
      then show ?thesis
        using True
        by (simp add: judgeCase_completed [OF a] retry_def self_runner_def Let_def case_prod_beta)
    qed
  qed
qed

lemma judgeCases_analysis: "analysis_once ctx (judgeCases ext invs ctx h)"
proof (induction invs arbitrary: ctx h)
  case Nil
  then show ?case by (simp add: analysis_once_def)
next
  case (Cons inv invs)
  obtain c ctxSubtask with_runner where inv: "inv = (c, ctxSubtask, with_runner)"
    by (cases inv) auto
  let ?j = "judgeCase ext c ctx ctxSubtask
              (if with_runner then Some (self_runner ext c) else None) h"
  let ?rest = "judgeCases ext invs (fst (snd ?j)) (h @ snd (snd ?j))"
  have first: "analysis_once ctx (fst (snd ?j), snd (snd ?j))"
    using judgeCase_self_analysis [of ctx ext c ctxSubtask h]
      judgeCase_None_analysis [of ctx ext c ctxSubtask h]
    by (cases with_runner) simp_all
  have "analysis_once (fst (snd ?j)) (fst ?rest, snd ?rest)"
    using Cons.IH [of "fst (snd ?j)" "h @ snd (snd ?j)"] by simp
  with first have "analysis_once ctx (fst ?rest, snd (snd ?j) @ snd ?rest)"
    by (rule analysis_once_trans)
  then show ?case
    by (simp add: inv case_prod_beta)
qed

lemma judgeCase_None_analysis_calls:
  "calls is_analysis (snd (snd (judgeCase ext c ctx ctxSubtask None h))) =
     (case fst (attempt ext c ctx h) of
        Inl e \<Rightarrow> 0
      | Inr (res, status, score, message) \<Rightarrow>
          if \<not> ctx_rejudged ctx \<and> \<not> ctx_analysis ctx
             \<and> (status = STATUS_WRONG_ANSWER \<or> status = STATUS_RUNTIME_ERROR)
          then 1 else 0)"
proof (cases "attempt ext c ctx h")
  case (Pair r evs)
  have z: "calls is_analysis evs = 0"
    using attempt_no_analysis [of ext c ctx h] by (simp add: Pair)
  show ?thesis
  proof (cases r)
    case (Inl e)
    then show ?thesis using z by (simp add: judgeCase_def Pair)
  next
    case (Inr x)
    obtain res status score message where x: "x = (res, status, score, message)"
      by (cases x) auto
    have a: "attempt ext c ctx h = (Inr (res, status, score, message), evs)"
      by (simp add: Pair Inr x)
    show ?thesis
      using z
      by (simp add: judgeCase_completed [OF a] a retry_fires_def finish_def analysis_due_def
            Let_def case_prod_beta split: sum.splits)
  qed
qed

lemma finish_analysis_calls:
  "calls is_analysis (snd (snd (finish ext ctx r h))) =
     (if analysis_due ctx (r_status r) then 1 else 0)"
  by (simp add: finish_def Let_def split: sum.splits)

lemma judgeCase_analysis_calls:
  "calls is_analysis (snd (snd (judgeCase ext c ctx ctxSubtask runner h))) =
     (case attempt ext c ctx h of
        (Inl e, evs) \<Rightarrow> 0
      | (Inr (res, status, score, message), evs) \<Rightarrow>
          if runner \<noteq> None \<and> ctx_rerun ctx \<noteq> 0 \<and> c_time c \<le> 5000
             \<and> status = STATUS_TIME_LIMIT_EXCEEDED
          then calls is_analysis
                 (snd (snd (the runner (ctx\<lparr>ctx_rerun := ctx_rerun ctx - 1\<rparr>) ctxSubtask
                    (h @ evs @ [EvRunner (ctx\<lparr>ctx_rerun := ctx_rerun ctx - 1\<rparr>) ctxSubtask]))))
          else if \<not> ctx_rejudged ctx \<and> \<not> ctx_analysis ctx
                  \<and> (status = STATUS_WRONG_ANSWER \<or> status = STATUS_RUNTIME_ERROR)
               then 1 else 0)"
proof (cases "attempt ext c ctx h")
  case (Pair r evs)
  have z: "calls is_analysis evs = 0"
    using attempt_no_analysis [of ext c ctx h] by (simp add: Pair)
  show ?thesis
  proof (cases r)
    case (Inl e)
    then show ?thesis using z by (simp add: judgeCase_def Pair)
  next
    case (Inr x)
    obtain res status score message where x: "x = (res, status, score, message)"
      by (cases x) auto
    have a: "attempt ext c ctx h = (Inr (res, status, score, message), evs)"
      by (simp add: Pair Inr x)
    show ?thesis
    proof (cases "retry_fires runner ctx c status")
      case True
      then have cond: "runner \<noteq> None \<and> ctx_rerun ctx \<noteq> 0 \<and> c_time c \<le> 5000
             \<and> status = STATUS_TIME_LIMIT_EXCEEDED"
        by (simp add: retry_fires_def)
      have "calls is_analysis (snd (snd (judgeCase ext c ctx ctxSubtask runner h))) =
          calls is_analysis
                 (snd (snd (the runner (ctx\<lparr>ctx_rerun := ctx_rerun ctx - 1\<rparr>) ctxSubtask
                    (h @ evs @ [EvRunner (ctx\<lparr>ctx_rerun := ctx_rerun ctx - 1\<rparr>) ctxSubtask]))))"
        using True z
        by (simp add: judgeCase_completed [OF a] retry_def Let_def case_prod_beta)
      then show ?thesis
        unfolding a using cond by simp
    next
      case False
      then have ncond: "\<not> (runner \<noteq> None \<and> ctx_rerun ctx \<noteq> 0 \<and> c_time c \<le> 5000
             \<and> status = STATUS_TIME_LIMIT_EXCEEDED)"
        by (simp add: retry_fires_def)
      have "calls is_analysis (snd (snd (judgeCase ext c ctx ctxSubtask runner h))) =
          (if \<not> ctx_rejudged ctx \<and> \<not> ctx_analysis ctx
                  \<and> (status = STATUS_WRONG_ANSWER \<or> status = STATUS_RUNTIME_ERROR)
               then 1 else 0)"
        using False z
        by (simp add: judgeCase_completed [OF a] finish_analysis_calls analysis_due_def
              case_prod_beta)
      then show ?thesis
        unfolding a prod.case sum.case if_not_P [OF ncond] .
    qed
  qed
qed

lemma finish_analysis_status:
  assumes "0 < calls is_analysis (snd (snd (finish ext ctx r h)))"
  shows "\<not> ctx_rejudged ctx \<and> \<not> ctx_analysis ctx
         \<and> (case fst (finish ext ctx r h) of
              Inr r' \<Rightarrow> r_status r' = STATUS_WRONG_ANSWER \<or> r_status r' = STATUS_RUNTIME_ERROR
            | Inl e \<Rightarrow> True)"
  using assms
  by (simp add: finish_def analysis_due_def Let_def split: sum.splits if_splits)

lemma judgeCase_None_analysis_status:
  assumes "0 < calls is_analysis (snd (snd (judgeCase ext c ctx ctxSubtask None h)))"
  shows "\<not> ctx_rejudged ctx \<and> \<not> ctx_analysis ctx
         \<and> (case fst (judgeCase ext c ctx ctxSubtask None h) of
              Inr r \<Rightarrow> r_status r = STATUS_WRONG_ANSWER \<or> r_status r = STATUS_RUNTIME_ERROR
            | Inl e \<Rightarrow> True)"
proof (cases "attempt ext c ctx h")
  case (Pair r evs)
  have z: "calls is_analysis evs = 0"
    using attempt_no_analysis [of ext c ctx h] by (simp add: Pair)
  show ?thesis
  proof (cases r)
    case (Inl e)
    then show ?thesis using z assms by (simp add: judgeCase_def Pair)
  next
    case (Inr x)
    obtain res status score message where x: "x = (res, status, score, message)"
      by (cases x) auto
    have a: "attempt ext c ctx h = (Inr (res, status, score, message), evs)"
      by (simp add: Pair Inr x)
    let ?f = "finish ext ctx (case_result c ctxSubtask res status score message) (h @ evs)"
    have j: "judgeCase ext c ctx ctxSubtask None h = (fst ?f, fst (snd ?f), evs @ snd (snd ?f))"
      by (simp add: judgeCase_completed [OF a] retry_fires_def case_prod_beta)
    have "0 < calls is_analysis (snd (snd ?f))"
      using assms z by (simp add: j)
    then show ?thesis
      using finish_analysis_status [of ext ctx "case_result c ctxSubtask res status score message"
          "h @ evs"]
      by (simp add: j)
  qed
qed

lemma judgeCase_self_analysis_status:
  assumes "0 < calls is_analysis
             (snd (snd (judgeCase ext c ctx ctxSubtask (Some (self_runner ext c)) h)))"
  shows "\<not> ctx_rejudged ctx \<and> \<not> ctx_analysis ctx
         \<and> (case fst (judgeCase ext c ctx ctxSubtask (Some (self_runner ext c)) h) of
              Inr r \<Rightarrow> r_status r = STATUS_WRONG_ANSWER \<or> r_status r = STATUS_RUNTIME_ERROR
            | Inl e \<Rightarrow> True)"
proof (cases "attempt ext c ctx h")
  case (Pair r evs)
  have z: "calls is_analysis evs = 0"
    using attempt_no_analysis [of ext c ctx h] by (simp add: Pair)
  show ?thesis
  proof (cases r)
    case (Inl e)
    then show ?thesis using z assms by (simp add: judgeCase_def Pair)
  next
    case (Inr x)
    obtain res status score message where x: "x = (res, status, score, message)"
      by (cases x) auto
    have a: "attempt ext c ctx h = (Inr (res, status, score, message), evs)"
      by (simp add: Pair Inr x)
    show ?thesis
    proof (cases "retry_fires (Some (self_runner ext c)) ctx c status")
      case False
      let ?f = "finish ext ctx (case_result c ctxSubtask res status score message) (h @ evs)"
      have j: "judgeCase ext c ctx ctxSubtask (Some (self_runner ext c)) h =
          (fst ?f, fst (snd ?f), evs @ snd (snd ?f))"
        using False by (simp add: judgeCase_completed [OF a] case_prod_beta)
      have "0 < calls is_analysis (snd (snd ?f))"
        using assms z by (simp add: j)
      then show ?thesis
        using finish_analysis_status [of ext ctx
            "case_result c ctxSubtask res status score message" "h @ evs"]
        by (simp add: j)
    next
      case True
      let ?ctx = "ctx\<lparr>ctx_rerun := ctx_rerun ctx - 1\<rparr>"
      let ?h = "h @ evs @ [EvRunner ?ctx ctxSubtask]"
      let ?j = "judgeCase ext c ?ctx ctxSubtask None ?h"
      have j: "judgeCase ext c ctx ctxSubtask (Some (self_runner ext c)) h =
          (fst ?j, fst (snd ?j), evs @ EvRunner ?ctx ctxSubtask # snd (snd ?j))"
        using True
        by (simp add: judgeCase_completed [OF a] retry_def self_runner_def Let_def case_prod_beta)
      have "0 < calls is_analysis (snd (snd ?j))"
        using assms z by (simp add: j)
      then show ?thesis
        using judgeCase_None_analysis_status [of ext c ?ctx ctxSubtask ?h]
        by (simp add: j)
    qed
  qed
qed

text \<open>
  Claim C5. In every sequence of Case Runner invocations on one context, each with or
  without the Case Runner as its own runner, the analysis capability is called at most
  once; never when the request is a rejudge, and never when the flag is already set. When it
  has been called the flag is set afterwards, and the context it is called on already has
  the flag set: line 59 comes before line 60. One invocation without a runner calls it
  exactly when the request is not a rejudge, the flag is not set and the status of the run
  is \<open>STATUS_WRONG_ANSWER\<close> or \<open>STATUS_RUNTIME_ERROR\<close>. One invocation with any runner: when
  the sandbox or the checker rejects there is no call; when line 54 retries, the calls are
  those of the runner and the Case Runner adds none; otherwise there is one call exactly
  when the request is not a rejudge, the flag is not set and the status of the attempt is
  \<open>STATUS_WRONG_ANSWER\<close> or \<open>STATUS_RUNTIME_ERROR\<close>. For an invocation without a runner or
  with the Case Runner as its own runner, a call implies that the request is not a rejudge,
  that the flag was not set, and that the record returned, if there is one, has status
  \<open>STATUS_WRONG_ANSWER\<close> or \<open>STATUS_RUNTIME_ERROR\<close>. The calls of a sequence are those of
  its first invocation and those of the rest. (Invocations are taken one after the other;
  interleavings at the \<^verbatim>\<open>await\<close> points are outside this model.)
\<close>

theorem C5_analysis_at_most_once:
  "calls is_analysis (snd (judgeCases ext invs ctx h)) \<le> 1
   \<and> (ctx_rejudged ctx \<longrightarrow> calls is_analysis (snd (judgeCases ext invs ctx h)) = 0)
   \<and> (ctx_analysis ctx \<longrightarrow> calls is_analysis (snd (judgeCases ext invs ctx h)) = 0)
   \<and> (0 < calls is_analysis (snd (judgeCases ext invs ctx h))
        \<longrightarrow> ctx_analysis (fst (judgeCases ext invs ctx h)))
   \<and> (\<forall>cx e f. EvRunAnalysis cx e f \<in> set (snd (judgeCases ext invs ctx h))
        \<longrightarrow> ctx_analysis cx \<and> \<not> ctx_rejudged cx)
   \<and> calls is_analysis (snd (snd (judgeCase ext c ctx ctxSubtask None h))) =
       (case fst (attempt ext c ctx h) of
          Inl e \<Rightarrow> 0
        | Inr (res, status, score, message) \<Rightarrow>
            if \<not> ctx_rejudged ctx \<and> \<not> ctx_analysis ctx
               \<and> (status = STATUS_WRONG_ANSWER \<or> status = STATUS_RUNTIME_ERROR)
            then 1 else 0)
   \<and> calls is_analysis (snd (snd (judgeCase ext c ctx ctxSubtask runner h))) =
       (case attempt ext c ctx h of
          (Inl e, evs) \<Rightarrow> 0
        | (Inr (res, status, score, message), evs) \<Rightarrow>
            if runner \<noteq> None \<and> ctx_rerun ctx \<noteq> 0 \<and> c_time c \<le> 5000
               \<and> status = STATUS_TIME_LIMIT_EXCEEDED
            then calls is_analysis
                   (snd (snd (the runner (ctx\<lparr>ctx_rerun := ctx_rerun ctx - 1\<rparr>) ctxSubtask
                      (h @ evs @ [EvRunner (ctx\<lparr>ctx_rerun := ctx_rerun ctx - 1\<rparr>) ctxSubtask]))))
            else if \<not> ctx_rejudged ctx \<and> \<not> ctx_analysis ctx
                    \<and> (status = STATUS_WRONG_ANSWER \<or> status = STATUS_RUNTIME_ERROR)
                 then 1 else 0)
   \<and> (runner = None \<or> runner = Some (self_runner ext c) \<longrightarrow>
        0 < calls is_analysis (snd (snd (judgeCase ext c ctx ctxSubtask runner h))) \<longrightarrow>
          \<not> ctx_rejudged ctx \<and> \<not> ctx_analysis ctx
          \<and> (case fst (judgeCase ext c ctx ctxSubtask runner h) of
               Inr r \<Rightarrow> r_status r = STATUS_WRONG_ANSWER \<or> r_status r = STATUS_RUNTIME_ERROR
             | Inl e \<Rightarrow> True))
   \<and> calls is_analysis (snd (judgeCases ext ((c, ctxSubtask, with_runner) # invs) ctx h)) =
       calls is_analysis
         (snd (snd (judgeCase ext c ctx ctxSubtask
            (if with_runner then Some (self_runner ext c) else None) h)))
       + calls is_analysis
           (snd (judgeCases ext invs
              (fst (snd (judgeCase ext c ctx ctxSubtask
                 (if with_runner then Some (self_runner ext c) else None) h)))
              (h @ snd (snd (judgeCase ext c ctx ctxSubtask
                 (if with_runner then Some (self_runner ext c) else None) h)))))"
proof -
  note s = judgeCases_analysis [of ctx ext invs h, unfolded analysis_once_def]
  have p1: "calls is_analysis (snd (judgeCases ext invs ctx h)) \<le> 1"
    using s by (auto split: if_splits)
  have p2: "ctx_rejudged ctx \<longrightarrow> calls is_analysis (snd (judgeCases ext invs ctx h)) = 0"
    using s by (auto split: if_splits)
  have p3: "ctx_analysis ctx \<longrightarrow> calls is_analysis (snd (judgeCases ext invs ctx h)) = 0"
    using s by (auto split: if_splits)
  have p4: "0 < calls is_analysis (snd (judgeCases ext invs ctx h))
        \<longrightarrow> ctx_analysis (fst (judgeCases ext invs ctx h))"
    using s by blast
  have p5: "\<forall>cx e f. EvRunAnalysis cx e f \<in> set (snd (judgeCases ext invs ctx h))
        \<longrightarrow> ctx_analysis cx \<and> \<not> ctx_rejudged cx"
    using s by blast
  note p6 = judgeCase_None_analysis_calls [of ext c ctx ctxSubtask h]
  note p7 = judgeCase_analysis_calls [of ext c ctx ctxSubtask runner h]
  have p8: "runner = None \<or> runner = Some (self_runner ext c) \<longrightarrow>
        0 < calls is_analysis (snd (snd (judgeCase ext c ctx ctxSubtask runner h))) \<longrightarrow>
          \<not> ctx_rejudged ctx \<and> \<not> ctx_analysis ctx
          \<and> (case fst (judgeCase ext c ctx ctxSubtask runner h) of
               Inr r \<Rightarrow> r_status r = STATUS_WRONG_ANSWER \<or> r_status r = STATUS_RUNTIME_ERROR
             | Inl e \<Rightarrow> True)"
    using judgeCase_None_analysis_status [of ext c ctx ctxSubtask h]
      judgeCase_self_analysis_status [of ext c ctx ctxSubtask h]
    by blast
  have p9: "calls is_analysis (snd (judgeCases ext ((c, ctxSubtask, with_runner) # invs) ctx h)) =
       calls is_analysis
         (snd (snd (judgeCase ext c ctx ctxSubtask
            (if with_runner then Some (self_runner ext c) else None) h)))
       + calls is_analysis
           (snd (judgeCases ext invs
              (fst (snd (judgeCase ext c ctx ctxSubtask
                 (if with_runner then Some (self_runner ext c) else None) h)))
              (h @ snd (snd (judgeCase ext c ctx ctxSubtask
                 (if with_runner then Some (self_runner ext c) else None) h)))))"
    by (simp add: case_prod_beta)
  show ?thesis
    by (intro conjI) (rule p1 p2 p3 p4 p5 p6 p7 p8 p9)+
qed

text \<open>
  Two cases on one context: the first gets a wrong answer from the checker, the second ends
  with a runtime error. Both qualify; the capability is called once. And one invocation
  with the Case Runner as its own runner: the first run is over the time limit, the retried
  run ends with exit code 1; the capability is called once and the record returned has
  status \<open>STATUS_RUNTIME_ERROR\<close>.
\<close>

theorem C5_witness:
  "\<not> ctx_rejudged (ex_ctx 2) \<and> \<not> ctx_analysis (ex_ctx 2)
   \<and> calls is_analysis
        (snd (judgeCases
           (ex_ext [ex_res STATUS_ACCEPTED None False 900 100000,
                    ex_res STATUS_RUNTIME_ERROR (Some 1) False 10 2048] (Inr ex_wrong))
           [(ex_case, ex_subtask, True), (ex_case, ex_subtask, False)] (ex_ctx 2) [])) = 1
   \<and> ctx_analysis
        (fst (judgeCases
           (ex_ext [ex_res STATUS_ACCEPTED None False 900 100000,
                    ex_res STATUS_RUNTIME_ERROR (Some 1) False 10 2048] (Inr ex_wrong))
           [(ex_case, ex_subtask, True), (ex_case, ex_subtask, False)] (ex_ctx 2) []))
   \<and> calls is_analysis
        (snd (snd (judgeCase
           (ex_ext [ex_res STATUS_ACCEPTED None False 1200 100000,
                    ex_res STATUS_RUNTIME_ERROR (Some 1) False 10 2048] (Inr ex_accept))
           ex_case (ex_ctx 2) ex_subtask
           (Some (self_runner
              (ex_ext [ex_res STATUS_ACCEPTED None False 1200 100000,
                       ex_res STATUS_RUNTIME_ERROR (Some 1) False 10 2048] (Inr ex_accept))
              ex_case)) []))) = 1
   \<and> fst (judgeCase
           (ex_ext [ex_res STATUS_ACCEPTED None False 1200 100000,
                    ex_res STATUS_RUNTIME_ERROR (Some 1) False 10 2048] (Inr ex_accept))
           ex_case (ex_ctx 2) ex_subtask
           (Some (self_runner
              (ex_ext [ex_res STATUS_ACCEPTED None False 1200 100000,
                       ex_res STATUS_RUNTIME_ERROR (Some 1) False 10 2048] (Inr ex_accept))
              ex_case)) []) =
       Inr \<lparr> r_id = 7, r_subtaskId = 1, r_status = STATUS_RUNTIME_ERROR, r_score = 0,
              r_time = 10, r_memory = 2048,
              r_message = MsgTemplate ''Your program returned {0}.'' [1] \<rparr>"
proof -
  let ?ext = "ex_ext [ex_res STATUS_ACCEPTED None False 900 100000,
                      ex_res STATUS_RUNTIME_ERROR (Some 1) False 10 2048] (Inr ex_wrong)"
  let ?invs = "[(ex_case, ex_subtask, True), (ex_case, ex_subtask, False)]"
  let ?ext2 = "ex_ext [ex_res STATUS_ACCEPTED None False 1200 100000,
                       ex_res STATUS_RUNTIME_ERROR (Some 1) False 10 2048] (Inr ex_accept)"
  have pos: "0 < calls is_analysis (snd (judgeCases ?ext ?invs (ex_ctx 2) []))"
    by (simp add: run_defs ex_wrong_def ex_defs case_prod_beta)
  have flags: "\<not> ctx_rejudged (ex_ctx 2) \<and> \<not> ctx_analysis (ex_ctx 2)"
    by (simp add: ex_ctx_def)
  have retried: "judgeCase ?ext2 ex_case (ex_ctx 2) ex_subtask
       (Some (self_runner ?ext2 ex_case)) [] =
     (Inr \<lparr> r_id = 7, r_subtaskId = 1, r_status = STATUS_RUNTIME_ERROR, r_score = 0,
              r_time = 10, r_memory = 2048,
              r_message = MsgTemplate ''Your program returned {0}.'' [1] \<rparr>,
      (ex_ctx 1)\<lparr>ctx_analysis := True\<rparr>,
      [ex_run, EvDel ''f1'', EvDel ''f2'', EvRunner (ex_ctx 1) ex_subtask, ex_run,
       EvDel ''f1'', EvDel ''f2'',
       EvRunAnalysis ((ex_ctx 1)\<lparr>ctx_analysis := True\<rparr>)
         \<lparr> ex_execute = ''a.out'', ex_copyIn = None \<rparr> (Src ''7.in'')])"
    by (simp add: run_defs ex_defs)
  have seq: "calls is_analysis (snd (judgeCases ?ext ?invs (ex_ctx 2) [])) = 1
      \<and> ctx_analysis (fst (judgeCases ?ext ?invs (ex_ctx 2) []))"
    using C5_analysis_at_most_once [where ext = ?ext and invs = ?invs and ctx = "ex_ctx 2"
      and h = "[]" and c = ex_case and ctxSubtask = ex_subtask
      and runner = "Some (self_runner ?ext ex_case)" and with_runner = True] pos flags
    by simp
  have count: "calls is_analysis
        (snd (snd (judgeCase ?ext2 ex_case (ex_ctx 2) ex_subtask
           (Some (self_runner ?ext2 ex_case)) []))) = 1"
    by (simp add: retried ex_run_def)
  have returned: "fst (judgeCase ?ext2 ex_case (ex_ctx 2) ex_subtask
           (Some (self_runner ?ext2 ex_case)) []) =
       Inr \<lparr> r_id = 7, r_subtaskId = 1, r_status = STATUS_RUNTIME_ERROR, r_score = 0,
              r_time = 10, r_memory = 2048,
              r_message = MsgTemplate ''Your program returned {0}.'' [1] \<rparr>"
    by (simp add: retried)
  show ?thesis
    using seq flags count returned by blast
qed

section \<open>The strategy\<close>

lemma flow_cases_events_run:
  "flow_cases (judgeCase ext) ((s, c) # rest) ctx h =
     (case judgeCase ext c ctx s (Some (self_runner ext c)) h of
        (Inl e, ctx', evs) \<Rightarrow> (Inl e, ctx', evs)
      | (Inr r, ctx', evs) \<Rightarrow>
          (case flow_cases (judgeCase ext) rest ctx' (h @ evs) of
             (Inl e, ctx'', evs') \<Rightarrow> (Inl e, ctx'', evs @ evs')
           | (Inr rs, ctx'', evs') \<Rightarrow> (Inr (r # rs), ctx'', evs @ evs')))"
  by (simp add: self_runner_def)

text \<open>
  Claim C9. The compile stage calls \<^verbatim>\<open>compile(lang, code)\<close> and
  \<^verbatim>\<open>compileLocalFile('checker', config.checker, config.checker_type)\<close>. When both
  succeed their results are stored in \<open>ctx_execute\<close> and \<open>ctx_checker\<close>, and the strategy
  goes on to the cases with that context. When one of them fails the strategy fails, the
  context is unchanged and no case is run. In every run of the strategy the two
  compilations are the first two calls, so no sandbox run of a case precedes them. The
  callback that runs a case is the Case Runner, with itself as the runner.
\<close>

theorem C9_compile_then_judge:
  "(\<forall>e1 e2.
      compile ext h (ctx_lang ctx) (ctx_code ctx) = Inr e1
      \<and> compileLocalFile ext (h @ [EvCompile (ctx_lang ctx) (ctx_code ctx)]) ''checker''
          (cfg_checker (ctx_config ctx)) (cfg_checker_type (ctx_config ctx)) = Inr e2
      \<longrightarrow> compile_stage ext ctx h =
            (Inr (), ctx\<lparr>ctx_execute := e1, ctx_checker := e2\<rparr>,
             [EvCompile (ctx_lang ctx) (ctx_code ctx),
              EvCompileLocalFile ''checker'' (cfg_checker (ctx_config ctx))
                (cfg_checker_type (ctx_config ctx))])
        \<and> judge ext ctx subtasks h =
            (case flow_cases (judgeCase ext) (concat (map (\<lambda>(s, cs). map (Pair s) cs) subtasks))
                    (ctx\<lparr>ctx_execute := e1, ctx_checker := e2\<rparr>)
                    (h @ [EvCompile (ctx_lang ctx) (ctx_code ctx),
                          EvCompileLocalFile ''checker'' (cfg_checker (ctx_config ctx))
                            (cfg_checker_type (ctx_config ctx))]) of
               (r, ctx', evs) \<Rightarrow>
                 (r, ctx',
                  EvCompile (ctx_lang ctx) (ctx_code ctx)
                    # EvCompileLocalFile ''checker'' (cfg_checker (ctx_config ctx))
                        (cfg_checker_type (ctx_config ctx))
                    # evs)))
   \<and> ((\<exists>e. compile ext h (ctx_lang ctx) (ctx_code ctx) = Inl e)
        \<or> (\<exists>e. compileLocalFile ext (h @ [EvCompile (ctx_lang ctx) (ctx_code ctx)]) ''checker''
                 (cfg_checker (ctx_config ctx)) (cfg_checker_type (ctx_config ctx)) = Inl e)
      \<longrightarrow> (\<exists>e. fst (judge ext ctx subtasks h) = Inl e)
          \<and> snd (judge ext ctx subtasks h) =
              (ctx, [EvCompile (ctx_lang ctx) (ctx_code ctx),
                     EvCompileLocalFile ''checker'' (cfg_checker (ctx_config ctx))
                       (cfg_checker_type (ctx_config ctx))])
          \<and> calls is_run (snd (snd (judge ext ctx subtasks h))) = 0)
   \<and> take 2 (snd (snd (judge ext ctx subtasks h))) =
        [EvCompile (ctx_lang ctx) (ctx_code ctx),
         EvCompileLocalFile ''checker'' (cfg_checker (ctx_config ctx))
           (cfg_checker_type (ctx_config ctx))]
   \<and> flow_cases (judgeCase ext) ((s, c) # rest) ctx h =
       (case judgeCase ext c ctx s (Some (self_runner ext c)) h of
          (Inl e, ctx', evs) \<Rightarrow> (Inl e, ctx', evs)
        | (Inr r, ctx', evs) \<Rightarrow>
            (case flow_cases (judgeCase ext) rest ctx' (h @ evs) of
               (Inl e, ctx'', evs') \<Rightarrow> (Inl e, ctx'', evs @ evs')
             | (Inr rs, ctx'', evs') \<Rightarrow> (Inr (r # rs), ctx'', evs @ evs')))"
proof -
  let ?ev1 = "EvCompile (ctx_lang ctx) (ctx_code ctx)"
  let ?ev2 = "EvCompileLocalFile ''checker'' (cfg_checker (ctx_config ctx))
                (cfg_checker_type (ctx_config ctx))"
  let ?p = "compile ext h (ctx_lang ctx) (ctx_code ctx)"
  let ?q = "compileLocalFile ext (h @ [?ev1]) ''checker''
              (cfg_checker (ctx_config ctx)) (cfg_checker_type (ctx_config ctx))"
  have ok: "compile_stage ext ctx h =
              (Inr (), ctx\<lparr>ctx_execute := e1, ctx_checker := e2\<rparr>, [?ev1, ?ev2])"
    if "?p = Inr e1" and "?q = Inr e2" for e1 e2
    using that by (simp add: compile_stage_def Promise_all2_def Let_def)
  have bad: "\<exists>e. compile_stage ext ctx h = (Inl e, ctx, [?ev1, ?ev2])"
    if "(\<exists>e. ?p = Inl e) \<or> (\<exists>e. ?q = Inl e)"
    using that by (auto simp add: compile_stage_def Promise_all2_def Let_def split: sum.splits)
  have j_ok: "judge ext ctx subtasks h =
            (case flow_cases (judgeCase ext) (concat (map (\<lambda>(s, cs). map (Pair s) cs) subtasks))
                    (ctx\<lparr>ctx_execute := e1, ctx_checker := e2\<rparr>) (h @ [?ev1, ?ev2]) of
               (r, ctx', evs) \<Rightarrow> (r, ctx', ?ev1 # ?ev2 # evs))"
    if "?p = Inr e1" and "?q = Inr e2" for e1 e2
    using ok [OF that] by (simp add: judge_def runFlow_def)
  have j_bad: "(\<exists>e. fst (judge ext ctx subtasks h) = Inl e)
          \<and> snd (judge ext ctx subtasks h) = (ctx, [?ev1, ?ev2])
          \<and> calls is_run (snd (snd (judge ext ctx subtasks h))) = 0"
    if "(\<exists>e. ?p = Inl e) \<or> (\<exists>e. ?q = Inl e)"
  proof -
    from bad [OF that] obtain e where "compile_stage ext ctx h = (Inl e, ctx, [?ev1, ?ev2])"
      by blast
    then show ?thesis by (simp add: judge_def runFlow_def)
  qed
  have first: "take 2 (snd (snd (judge ext ctx subtasks h))) = [?ev1, ?ev2]"
  proof (cases "(\<exists>e. ?p = Inl e) \<or> (\<exists>e. ?q = Inl e)")
    case True
    then show ?thesis using j_bad by simp
  next
    case False
    then obtain e1 e2 where "?p = Inr e1" and "?q = Inr e2"
      by (cases ?p; cases ?q) auto
    then show ?thesis using j_ok by (simp add: case_prod_beta)
  qed
  show ?thesis
    using ok j_ok j_bad first flow_cases_events_run [of ext s c rest ctx h] by blast
qed

text \<open>
  One subtask with one case, on a context without executables: both are compiled, stored,
  and the case is run with the compiled submission.
\<close>

theorem C9_witness:
  "judge (ex_ext [ex_res STATUS_ACCEPTED None False 900 100000] (Inr ex_accept))
      ex_uncompiled [(ex_subtask, [ex_case])] [] =
     (Inr [\<lparr> r_id = 7, r_subtaskId = 1, r_status = STATUS_ACCEPTED, r_score = 100,
              r_time = 900, r_memory = 100000, r_message = MsgString ''ok'' \<rparr>],
      ex_ctx 0,
      [EvCompile ''cc'' ''main'', EvCompileLocalFile ''checker'' ''checker.cc'' ''default'',
       ex_run,
       EvChecker ''default'' (check_config ex_case (ex_ctx 0)
         (ex_res STATUS_ACCEPTED None False 900 100000)),
       EvDel ''f1'', EvDel ''f2''])"
proof -
  let ?res = "ex_res STATUS_ACCEPTED None False 900 100000"
  let ?ext = "ex_ext [?res] (Inr ex_accept)"
  let ?e = "\<lparr> ex_execute = ''a.out'', ex_copyIn = None \<rparr>"
  let ?k = "\<lparr> ex_execute = ''checker'', ex_copyIn = None \<rparr>"
  have h1: "compile ?ext [] (ctx_lang ex_uncompiled) (ctx_code ex_uncompiled) = Inr ?e"
    by (simp add: ex_ext_def)
  have h2: "compileLocalFile ?ext
       ([] @ [EvCompile (ctx_lang ex_uncompiled) (ctx_code ex_uncompiled)]) ''checker''
       (cfg_checker (ctx_config ex_uncompiled)) (cfg_checker_type (ctx_config ex_uncompiled)) =
     Inr ?k"
    by (simp add: ex_ext_def)
  have c: "ex_uncompiled\<lparr>ctx_execute := ?e, ctx_checker := ?k\<rparr> = ex_ctx 0"
    by (simp add: ex_uncompiled_def ex_ctx_def)
  have l: "ctx_lang ex_uncompiled = ''cc''" "ctx_code ex_uncompiled = ''main''"
    "cfg_checker (ctx_config ex_uncompiled) = ''checker.cc''"
    "cfg_checker_type (ctx_config ex_uncompiled) = ''default''"
    by (simp_all add: ex_uncompiled_def ex_ctx_def)
  have run: "judgeCase ?ext ex_case (ex_ctx 0) ex_subtask
      (Some (\<lambda>ctx' s h'. judgeCase ?ext ex_case ctx' s None h'))
      [EvCompile ''cc'' ''main'', EvCompileLocalFile ''checker'' ''checker.cc'' ''default''] =
     (Inr \<lparr> r_id = 7, r_subtaskId = 1, r_status = STATUS_ACCEPTED, r_score = 100,
              r_time = 900, r_memory = 100000, r_message = MsgString ''ok'' \<rparr>,
      ex_ctx 0,
      [ex_run, EvChecker ''default'' (check_config ex_case (ex_ctx 0) ?res),
       EvDel ''f1'', EvDel ''f2''])"
    by (simp add: judgeCase_def attempt_def classify_def cleanup_events retry_fires_def
          finish_def analysis_due_def case_result_def Let_def ex_accept_def ex_defs)
  from C9_compile_then_judge [of ?ext "[]" ex_uncompiled "[(ex_subtask, [ex_case])]"
      ex_subtask ex_case "[]"] h1 h2
  show ?thesis
    by (simp add: c l run)
qed

end
